theory Spec2Isabelle
  imports Main
begin

section \<open>JavaScript values and strings\<close>

text \<open>
  A string is a list of 8-bit characters, read as the UTF-16 code units below 256 (ASCII
  and the Latin-1 supplement); text with other code units is outside the model. A
  nullable column or header is an \<open>option\<close>. JavaScript truthiness of a nullable string:
  \<open>null\<close>, \<open>undefined\<close> and the empty string are falsy.
\<close>

definition truthy :: "string option \<Rightarrow> bool" where
  "truthy v = (case v of None \<Rightarrow> False | Some s \<Rightarrow> s \<noteq> [])"

text \<open>\<^verbatim>\<open>x || 0\<close> on a nullable integer column.\<close>

definition or_zero :: "int option \<Rightarrow> int" where
  "or_zero v = (case v of None \<Rightarrow> 0 | Some n \<Rightarrow> n)"

text \<open>\<^verbatim>\<open>a || b\<close> on nullable strings.\<close>

definition or_else :: "string option \<Rightarrow> string option \<Rightarrow> string option" where
  "or_else a b = (if truthy a then a else b)"

definition upper_chars :: string where
  "upper_chars = ''ABCDEFGHIJKLMNOPQRSTUVWXYZ''"

definition lower_chars :: string where
  "lower_chars = ''abcdefghijklmnopqrstuvwxyz''"

text \<open>
  \<^verbatim>\<open>toLowerCase\<close> maps \<^verbatim>\<open>A\<close> to \<^verbatim>\<open>Z\<close> and, in the Latin-1 supplement, U+00C0 to U+00DE
  without the multiplication sign U+00D7, each to the code unit 32 above it.
\<close>

definition latin1_upper :: string where
  "latin1_upper =
    [CHR 0xC0, CHR 0xC1, CHR 0xC2, CHR 0xC3, CHR 0xC4, CHR 0xC5, CHR 0xC6, CHR 0xC7,
     CHR 0xC8, CHR 0xC9, CHR 0xCA, CHR 0xCB, CHR 0xCC, CHR 0xCD, CHR 0xCE, CHR 0xCF,
     CHR 0xD0, CHR 0xD1, CHR 0xD2, CHR 0xD3, CHR 0xD4, CHR 0xD5, CHR 0xD6,
     CHR 0xD8, CHR 0xD9, CHR 0xDA, CHR 0xDB, CHR 0xDC, CHR 0xDD, CHR 0xDE]"

definition latin1_lower :: string where
  "latin1_lower =
    [CHR 0xE0, CHR 0xE1, CHR 0xE2, CHR 0xE3, CHR 0xE4, CHR 0xE5, CHR 0xE6, CHR 0xE7,
     CHR 0xE8, CHR 0xE9, CHR 0xEA, CHR 0xEB, CHR 0xEC, CHR 0xED, CHR 0xEE, CHR 0xEF,
     CHR 0xF0, CHR 0xF1, CHR 0xF2, CHR 0xF3, CHR 0xF4, CHR 0xF5, CHR 0xF6,
     CHR 0xF8, CHR 0xF9, CHR 0xFA, CHR 0xFB, CHR 0xFC, CHR 0xFD, CHR 0xFE]"

definition toLowerChar :: "char \<Rightarrow> char" where
  "toLowerChar c =
    (case map_of (zip (upper_chars @ latin1_upper) (lower_chars @ latin1_lower)) c of
       None \<Rightarrow> c
     | Some l \<Rightarrow> l)"

definition toLowerCase :: "string \<Rightarrow> string" where
  "toLowerCase s = map toLowerChar s"

text \<open>\<^verbatim>\<open>s.includes(t)\<close>: \<open>t\<close> occurs in \<open>s\<close> as a contiguous substring.\<close>

fun str_includes :: "string \<Rightarrow> string \<Rightarrow> bool" where
  "str_includes [] t = (t = [])"
| "str_includes (c # s) t = (take (length t) (c # s) = t \<or> str_includes s t)"

text \<open>
  \<^verbatim>\<open>trim\<close> removes white space and line terminators: below 256 these are the space, the
  tab, the line feed, the vertical tab, the form feed, the carriage return and the
  no-break space U+00A0.
\<close>

definition is_space :: "char \<Rightarrow> bool" where
  "is_space c = (c \<in> set [CHR '' '', CHR 0x09, CHR 0x0A, CHR 0x0B, CHR 0x0C, CHR 0x0D, CHR 0xA0])"

definition trim :: "string \<Rightarrow> string" where
  "trim s = rev (dropWhile is_space (rev (dropWhile is_space s)))"

section \<open>The record store\<close>

text \<open>
  Timestamps are milliseconds since the epoch (\<^verbatim>\<open>Date.getTime()\<close>); a timestamp column
  holds the instant its ISO string denotes.
\<close>

record email_history =
  eh_id :: string
  recipient_email :: string
  recipient_name :: "string option"
  sender_email :: string
  subject :: string
  status :: string
  sent_at :: "int option"
  sent_by :: "string option"
  contact_id :: "string option"
  lead_id :: "string option"
  account_id :: "string option"
  open_count :: "int option"
  unique_opens :: "int option"
  first_open_ip :: "string option"
  opened_at :: "int option"
  is_valid_open :: "bool option"
  bounce_type :: "string option"
  bounce_reason :: "string option"
  bounced_at :: "int option"
  message_id :: "string option"
  reply_count :: "int option"
  replied_at :: "int option"
  last_reply_at :: "int option"

record contact =
  c_id :: string
  email_opens :: "int option"
  engagement_score :: "int option"

record notification =
  user_id :: string
  message :: string
  notification_type :: string
  n_status :: string
  n_lead_id :: "string option"

record pending_bounce_check =
  pbc_id :: string
  email_history_id :: "string option"
  pbc_sender_email :: string
  pbc_recipient_email :: string
  check_after :: int
  checked :: bool
  check_result :: "string option"
  created_at :: int

record email_reply =
  er_email_history_id :: string
  from_email :: string
  from_name :: "string option"
  er_subject :: string
  body_preview :: string
  received_at :: int
  graph_message_id :: string

record db =
  email_history_tbl :: "email_history list"
  contacts_tbl :: "contact list"
  notifications_tbl :: "notification list"
  pending_tbl :: "pending_bounce_check list"
  replies_tbl :: "email_reply list"

text \<open>\<^verbatim>\<open>.select(...).eq(...).single()\<close>: the row when exactly one matches, an error otherwise.\<close>

definition single_row :: "('a \<Rightarrow> bool) \<Rightarrow> 'a list \<Rightarrow> 'a option" where
  "single_row P xs = (case filter P xs of [x] \<Rightarrow> Some x | _ \<Rightarrow> None)"

text \<open>\<^verbatim>\<open>.update(...).eq(...)\<close>: every matching row is rewritten.\<close>

definition update_where :: "('a \<Rightarrow> bool) \<Rightarrow> ('a \<Rightarrow> 'a) \<Rightarrow> 'a list \<Rightarrow> 'a list" where
  "update_where P f xs = map (\<lambda>x. if P x then f x else x) xs"

section \<open>Open Tracking Endpoint (track-email-open)\<close>

record response =
  resp_status :: nat
  resp_headers :: "(string \<times> string) list"
  resp_body :: "nat list"

text \<open>\<^verbatim>\<open>new Response(body, { headers })\<close>: the status defaults to 200.\<close>

definition Response :: "nat list \<Rightarrow> (string \<times> string) list \<Rightarrow> response" where
  "Response b hs = \<lparr>resp_status = 200, resp_headers = hs, resp_body = b\<rparr>"

definition TRACKING_PIXEL :: "nat list" where
  "TRACKING_PIXEL =
    [0x47, 0x49, 0x46, 0x38, 0x39, 0x61, 0x01, 0x00, 0x01, 0x00, 0x80, 0x00,
     0x00, 0xff, 0xff, 0xff, 0x00, 0x00, 0x00, 0x21, 0xf9, 0x04, 0x01, 0x00,
     0x00, 0x00, 0x00, 0x2c, 0x00, 0x00, 0x00, 0x00, 0x01, 0x00, 0x01, 0x00,
     0x00, 0x02, 0x02, 0x44, 0x01, 0x00, 0x3b]"

definition PIXEL_HEADERS :: "(string \<times> string) list" where
  "PIXEL_HEADERS =
    [(''Content-Type'', ''image/gif''),
     (''Cache-Control'', ''no-store, no-cache, must-revalidate, proxy-revalidate''),
     (''Pragma'', ''no-cache''),
     (''Expires'', ''0'')]"

definition BOT_USER_AGENTS :: "string list" where
  "BOT_USER_AGENTS =
    [''microsoft-exchange'', ''msexchange'', ''barracuda'', ''proofpoint'', ''mimecast'',
     ''fireeye'', ''googleimageproxy'', ''ymailproxy'', ''outlookproxy'', ''yahoo mail proxy'',
     ''appengine-google'', ''googlebot'', ''bingbot'', ''slurp'', ''duckduckbot'',
     ''baiduspider'', ''yandexbot'', ''facebookexternalhit'', ''twitterbot'', ''linkedinbot'',
     ''slackbot'', ''whatsapp'', ''telegrambot'', ''discordbot'', ''python-requests'',
     ''curl'', ''wget'', ''httpie'', ''postman'', ''insomnia'', ''apache-httpclient'',
     ''java/'', ''okhttp'', ''go-http-client'', ''libwww-perl'', ''ruby'', ''php/'',
     ''guzzle'', ''headlesschrome'', ''phantomjs'', ''selenium'', ''puppeteer'',
     ''playwright'', ''atp-'', ''forefront'', ''safelinks'', ''safe links'',
     ''protection.outlook'', ''defender'', ''safebrowsing'', ''emailsecurity'',
     ''mailscanner'', ''spamassassin'', ''spamhaus'', ''messagelabs'', ''websense'',
     ''symantec'', ''trend micro'', ''kaspersky'', ''sophos'', ''mcafee'', ''norton'',
     ''avast'', ''avg'', ''clam'', ''bitdefender'', ''f-secure'', ''panda'', ''comodo'',
     ''eset'', ''g data'', ''zonealarm'', ''webroot'', ''malwarebytes'']"

definition MIN_OPEN_DELAY_SECONDS :: int where
  "MIN_OPEN_DELAY_SECONDS = 5"

definition DEDUP_WINDOW_SECONDS :: int where
  "DEDUP_WINDOW_SECONDS = 300"

definition isBotUserAgent :: "string option \<Rightarrow> bool" where
  "isBotUserAgent userAgent =
    (case userAgent of
       None \<Rightarrow> True
     | Some ua \<Rightarrow>
         if ua = [] then True
         else list_ex (\<lambda>bot. str_includes (toLowerCase ua) bot) BOT_USER_AGENTS)"

record request =
  query_id :: "string option"
  user_agent :: "string option"
  x_forwarded_for :: "string option"
  x_real_ip :: "string option"
  cf_connecting_ip :: "string option"

text \<open>\<^verbatim>\<open>forwardedFor.split(',')[0].trim()\<close>, then the two other headers, then \<^verbatim>\<open>'unknown'\<close>.\<close>

definition getClientIP :: "request \<Rightarrow> string" where
  "getClientIP req =
    (if truthy (x_forwarded_for req)
     then trim (takeWhile (\<lambda>c. c \<noteq> CHR '','') (the (x_forwarded_for req)))
     else if truthy (x_real_ip req) then the (x_real_ip req)
     else if truthy (cf_connecting_ip req) then the (cf_connecting_ip req)
     else ''unknown'')"

text \<open>
  What the environment decides in one run of the handler: whether creating the database
  client throws, whether the select or the update of \<^verbatim>\<open>email_history\<close> reports an
  error, whether the notification insert reports one, and whether something throws after
  the update.
\<close>

record faults =
  client_throws :: bool
  fetch_error :: bool
  update_error :: bool
  notif_error :: bool
  throws_late :: bool

text \<open>
  The \<^verbatim>\<open>try\<close> block of the handler. The result is the store as the block leaves it and
  the response it returns, or \<open>None\<close> when it throws. Elapsed times are compared in
  milliseconds: \<^verbatim>\<open>(now - sentAt) / 1000 < 5\<close> holds exactly when
  \<open>now - sentAt < 5 * 1000\<close>.
\<close>

definition first_open_effects :: "email_history \<Rightarrow> faults \<Rightarrow> db \<Rightarrow> db" where
  "first_open_effects emailData flt d =
    (let d1 =
       (if truthy (sent_by emailData) \<and> \<not> notif_error flt
        then d\<lparr>notifications_tbl := notifications_tbl d @
               [\<lparr>user_id = the (sent_by emailData),
                 message = the (or_else (recipient_name emailData) (Some (recipient_email emailData)))
                             @ '' opened your email: '' @ [CHR 0x22] @ subject emailData @ [CHR 0x22],
                 notification_type = ''email_opened'',
                 n_status = ''unread'',
                 n_lead_id = lead_id emailData\<rparr>]\<rparr>
        else d)
     in if truthy (contact_id emailData)
        then (case single_row (\<lambda>c. c_id c = the (contact_id emailData)) (contacts_tbl d1) of
                None \<Rightarrow> d1
              | Some contact \<Rightarrow>
                  d1\<lparr>contacts_tbl :=
                       update_where (\<lambda>c. c_id c = the (contact_id emailData))
                         (\<lambda>c. c\<lparr>email_opens := Some (or_zero (email_opens contact) + 1),
                                engagement_score := Some (min (or_zero (engagement_score contact) + 5) 100)\<rparr>)
                         (contacts_tbl d1)\<rparr>)
        else d1)"

text \<open>
  The update object of a qualifying open, built from the row as it was read
  (\<open>emailData\<close>), and applied to the row the update finds.
\<close>

definition open_update :: "email_history \<Rightarrow> int \<Rightarrow> string \<Rightarrow> email_history \<Rightarrow> email_history" where
  "open_update emailData now clientIP r =
    (let currentOpenCount = or_zero (open_count emailData);
         currentUniqueOpens = or_zero (unique_opens emailData);
         isFirstOpen = (currentOpenCount = 0);
         firstOpenIP = first_open_ip emailData;
         isUniqueOpen =
           (if isFirstOpen then True
            else if firstOpenIP \<noteq> Some clientIP then True
            else (case opened_at emailData of
                    None \<Rightarrow> False
                  | Some lastOpenedAt \<Rightarrow> now - lastOpenedAt > DEDUP_WINDOW_SECONDS * 1000));
         r1 = r\<lparr>status := ''opened'',
                open_count := Some (currentOpenCount + 1),
                is_valid_open := Some True\<rparr>;
         r2 = (if isFirstOpen then r1\<lparr>opened_at := Some now, first_open_ip := Some clientIP\<rparr> else r1)
     in if isUniqueOpen then r2\<lparr>unique_opens := Some (currentUniqueOpens + 1)\<rparr> else r2)"

definition handler_try :: "db \<Rightarrow> int \<Rightarrow> request \<Rightarrow> faults \<Rightarrow> db \<times> response option" where
  "handler_try d now req flt =
    (if \<not> truthy (query_id req) then (d, Some (Response TRACKING_PIXEL PIXEL_HEADERS))
     else
       let emailId = the (query_id req);
           userAgent = user_agent req;
           clientIP = getClientIP req
       in
       if isBotUserAgent userAgent then
         (if client_throws flt then (d, None)
          else
            ((if update_error flt then d
              else d\<lparr>email_history_tbl :=
                       update_where (\<lambda>r. eh_id r = emailId) (\<lambda>r. r\<lparr>is_valid_open := Some False\<rparr>)
                         (email_history_tbl d)\<rparr>),
             Some (Response TRACKING_PIXEL PIXEL_HEADERS)))
       else if client_throws flt then (d, None)
       else
         (case (if fetch_error flt then None
                else single_row (\<lambda>r. eh_id r = emailId) (email_history_tbl d)) of
            None \<Rightarrow> (d, Some (Response TRACKING_PIXEL PIXEL_HEADERS))
          | Some emailData \<Rightarrow>
              if truthy (bounce_type emailData)
              then (d, Some (Response TRACKING_PIXEL PIXEL_HEADERS))
              else
                let sentAt = or_zero (sent_at emailData) in
                if now - sentAt < MIN_OPEN_DELAY_SECONDS * 1000 then
                  ((if update_error flt then d
                    else d\<lparr>email_history_tbl :=
                             update_where (\<lambda>r. eh_id r = emailId) (\<lambda>r. r\<lparr>is_valid_open := Some False\<rparr>)
                               (email_history_tbl d)\<rparr>),
                   Some (Response TRACKING_PIXEL PIXEL_HEADERS))
                else
                  let isFirstOpen = (or_zero (open_count emailData) = 0);
                      d1 = (if update_error flt then d
                            else d\<lparr>email_history_tbl :=
                                     update_where (\<lambda>r. eh_id r = emailId)
                                       (open_update emailData now clientIP) (email_history_tbl d)\<rparr>)
                  in
                  if throws_late flt then (d1, None)
                  else
                    ((if isFirstOpen then first_open_effects emailData flt d1 else d1),
                     Some (Response TRACKING_PIXEL PIXEL_HEADERS))))"

text \<open>The handler: the \<^verbatim>\<open>catch\<close> block answers with the same pixel.\<close>

definition handler :: "db \<Rightarrow> int \<Rightarrow> request \<Rightarrow> faults \<Rightarrow> db \<times> response" where
  "handler d now req flt =
    (case handler_try d now req flt of
       (d', Some resp) \<Rightarrow> (d', resp)
     | (d', None) \<Rightarrow> (d', Response TRACKING_PIXEL PIXEL_HEADERS))"

text \<open>
  The select and the update of \<^verbatim>\<open>email_history\<close> are two awaited calls, and the update
  finds its row by id alone, so other runs can write between them. \<open>handler_try_stale\<close> is
  the \<^verbatim>\<open>try\<close> block of a run whose select read the store \<open>d0\<close> and whose later calls
  (the updates, the notification insert, the select and the update of the contact) meet
  the store \<open>d\<close>. The time \<open>now\<close> is taken right after the select.
\<close>

definition handler_try_stale :: "db \<Rightarrow> db \<Rightarrow> int \<Rightarrow> request \<Rightarrow> faults \<Rightarrow> db \<times> response option" where
  "handler_try_stale d0 d now req flt =
    (if \<not> truthy (query_id req) then (d, Some (Response TRACKING_PIXEL PIXEL_HEADERS))
     else
       let emailId = the (query_id req);
           userAgent = user_agent req;
           clientIP = getClientIP req
       in
       if isBotUserAgent userAgent then
         (if client_throws flt then (d, None)
          else
            ((if update_error flt then d
              else d\<lparr>email_history_tbl :=
                       update_where (\<lambda>r. eh_id r = emailId) (\<lambda>r. r\<lparr>is_valid_open := Some False\<rparr>)
                         (email_history_tbl d)\<rparr>),
             Some (Response TRACKING_PIXEL PIXEL_HEADERS)))
       else if client_throws flt then (d, None)
       else
         (case (if fetch_error flt then None
                else single_row (\<lambda>r. eh_id r = emailId) (email_history_tbl d0)) of
            None \<Rightarrow> (d, Some (Response TRACKING_PIXEL PIXEL_HEADERS))
          | Some emailData \<Rightarrow>
              if truthy (bounce_type emailData)
              then (d, Some (Response TRACKING_PIXEL PIXEL_HEADERS))
              else
                let sentAt = or_zero (sent_at emailData) in
                if now - sentAt < MIN_OPEN_DELAY_SECONDS * 1000 then
                  ((if update_error flt then d
                    else d\<lparr>email_history_tbl :=
                             update_where (\<lambda>r. eh_id r = emailId) (\<lambda>r. r\<lparr>is_valid_open := Some False\<rparr>)
                               (email_history_tbl d)\<rparr>),
                   Some (Response TRACKING_PIXEL PIXEL_HEADERS))
                else
                  let isFirstOpen = (or_zero (open_count emailData) = 0);
                      d1 = (if update_error flt then d
                            else d\<lparr>email_history_tbl :=
                                     update_where (\<lambda>r. eh_id r = emailId)
                                       (open_update emailData now clientIP) (email_history_tbl d)\<rparr>)
                  in
                  if throws_late flt then (d1, None)
                  else
                    ((if isFirstOpen then first_open_effects emailData flt d1 else d1),
                     Some (Response TRACKING_PIXEL PIXEL_HEADERS))))"

definition handler_stale :: "db \<Rightarrow> db \<Rightarrow> int \<Rightarrow> request \<Rightarrow> faults \<Rightarrow> db \<times> response" where
  "handler_stale d0 d now req flt =
    (case handler_try_stale d0 d now req flt of
       (d', Some resp) \<Rightarrow> (d', resp)
     | (d', None) \<Rightarrow> (d', Response TRACKING_PIXEL PIXEL_HEADERS))"

section \<open>Regular expressions\<close>

text \<open>
  The JavaScript patterns of the parsers, as a backtracking matcher. A match state is the
  character before the current position (for \<^verbatim>\<open>\b\<close>) and the rest of the input.
  \<open>rmatch\<close> lists the states after a match in the order in which backtracking tries
  them: greedy quantifiers the longest first, lazy ones the shortest first, alternatives
  left to right. An iteration of a quantifier that consumes nothing is rejected, as by the
  language's RepeatMatcher. The first flag is the \<^verbatim>\<open>i\<close> flag.
\<close>

datatype rx =
    Eps
  | Cls string
  | NCls string
  | Seq rx rx
  | Alt rx rx
  | Star rx
  | LazyStar rx
  | WordB
  | EndInput

type_synonym rstate = "char option \<times> string"

definition digit_chars :: string where
  "digit_chars = ''0123456789''"

definition word_chars :: string where
  "word_chars = lower_chars @ upper_chars @ digit_chars @ ''_''"

text \<open>\<^verbatim>\<open>\s\<close>: the characters \<^verbatim>\<open>trim\<close> removes, the no-break space U+00A0 among them.\<close>

definition space_chars :: string where
  "space_chars = [CHR '' '', CHR 0x09, CHR 0x0A, CHR 0x0B, CHR 0x0C, CHR 0x0D, CHR 0xA0]"

text \<open>
  Membership of a character in a class. Under the \<^verbatim>\<open>i\<close> flag two characters match when
  their canonical (upper-case) forms agree: the character itself or its other case is in
  the class. The classes and literals of the patterns are ASCII, and no character above
  127 has an ASCII canonical form, so only the ASCII letters have another case here.
\<close>

definition swapCaseChar :: "char \<Rightarrow> char" where
  "swapCaseChar c =
    (case map_of (zip upper_chars lower_chars) c of
       Some l \<Rightarrow> l
     | None \<Rightarrow> (case map_of (zip lower_chars upper_chars) c of Some u \<Rightarrow> u | None \<Rightarrow> c))"

definition char_in :: "bool \<Rightarrow> char \<Rightarrow> string \<Rightarrow> bool" where
  "char_in ci c cs = (if c \<in> set cs then True else if ci then swapCaseChar c \<in> set cs else False)"

definition at_word_boundary :: "rstate \<Rightarrow> bool" where
  "at_word_boundary st =
    ((case fst st of None \<Rightarrow> False | Some c \<Rightarrow> c \<in> set word_chars)
      \<noteq> (case snd st of [] \<Rightarrow> False | c # _ \<Rightarrow> c \<in> set word_chars))"

fun rmatch :: "bool \<Rightarrow> rx \<Rightarrow> rstate \<Rightarrow> rstate list" where
  "rmatch ci Eps st = [st]"
| "rmatch ci (Cls cs) st =
    (case snd st of [] \<Rightarrow> [] | c # s \<Rightarrow> if char_in ci c cs then [(Some c, s)] else [])"
| "rmatch ci (NCls cs) st =
    (case snd st of [] \<Rightarrow> [] | c # s \<Rightarrow> if char_in ci c cs then [] else [(Some c, s)])"
| "rmatch ci (Seq a b) st = concat (map (rmatch ci b) (rmatch ci a st))"
| "rmatch ci (Alt a b) st = rmatch ci a st @ rmatch ci b st"
| "rmatch ci (Star a) st =
    concat (map (\<lambda>st'. if length (snd st') < length (snd st) then rmatch ci (Star a) st' else [])
                (rmatch ci a st)) @ [st]"
| "rmatch ci (LazyStar a) st =
    st # concat (map (\<lambda>st'. if length (snd st') < length (snd st) then rmatch ci (LazyStar a) st' else [])
                     (rmatch ci a st))"
| "rmatch ci WordB st = (if at_word_boundary st then [st] else [])"
| "rmatch ci EndInput st = (if snd st = [] then [st] else [])"

definition lit :: "string \<Rightarrow> rx" where
  "lit s = foldr (\<lambda>c r. Seq (Cls [c]) r) s Eps"

definition plus :: "rx \<Rightarrow> rx" where
  "plus a = Seq a (Star a)"

definition opt :: "rx \<Rightarrow> rx" where
  "opt a = Alt a Eps"

definition seqs :: "rx list \<Rightarrow> rx" where
  "seqs rs = foldr Seq rs Eps"

definition alts :: "rx list \<Rightarrow> rx" where
  "alts rs = (case rs of [] \<Rightarrow> Eps | _ \<Rightarrow> foldr Alt (butlast rs) (last rs))"

text \<open>
  A pattern with the parts before, inside and after the capture group the code reads.
  \<open>match_here\<close> is the first successful match at one position: the whole matched text
  (\<^verbatim>\<open>match[0]\<close>) and the group's text. \<open>str_match\<close> is \<^verbatim>\<open>s.match(pattern)\<close> without the
  \<^verbatim>\<open>g\<close> flag: the leftmost position that matches.
\<close>

type_synonym pat = "bool \<times> rx \<times> rx \<times> rx"

definition match_here :: "pat \<Rightarrow> rstate \<Rightarrow> (string \<times> string) option" where
  "match_here pt st =
    (case pt of (ci, pre, grp, post) \<Rightarrow>
      (case concat (map (\<lambda>st1. concat (map (\<lambda>st2. map (\<lambda>st3.
                (take (length (snd st) - length (snd st3)) (snd st),
                 take (length (snd st1) - length (snd st2)) (snd st1)))
              (rmatch ci post st2)) (rmatch ci grp st1))) (rmatch ci pre st)) of
         [] \<Rightarrow> None
       | m # _ \<Rightarrow> Some m))"

fun rsearch :: "pat \<Rightarrow> char option \<Rightarrow> string \<Rightarrow> (string \<times> string) option" where
  "rsearch pt p [] = match_here pt (p, [])"
| "rsearch pt p (c # s) =
    (case match_here pt (p, c # s) of Some m \<Rightarrow> Some m | None \<Rightarrow> rsearch pt (Some c) s)"

definition str_match :: "string \<Rightarrow> pat \<Rightarrow> (string \<times> string) option" where
  "str_match s pt = rsearch pt None s"

text \<open>\<^verbatim>\<open>s.replace(/r/g, rep)\<close>, scanning left to right.\<close>

fun replace_all :: "bool \<Rightarrow> rx \<Rightarrow> string \<Rightarrow> char option \<Rightarrow> string \<Rightarrow> string" where
  "replace_all ci r rep p [] = (case rmatch ci r (p, []) of [] \<Rightarrow> [] | _ \<Rightarrow> rep)"
| "replace_all ci r rep p (c # s) =
    (case rmatch ci r (p, c # s) of
       [] \<Rightarrow> c # replace_all ci r rep (Some c) s
     | st' # _ \<Rightarrow>
         if length (snd st') < length (c # s)
         then rep @ replace_all ci r rep (fst st') (snd st')
         else rep @ c # replace_all ci r rep (Some c) s)"

text \<open>The patterns try each in turn and stop at the first that matches.\<close>

fun first_match :: "pat list \<Rightarrow> string \<Rightarrow> (string \<times> string) option" where
  "first_match [] s = None"
| "first_match (pt # pts) s =
    (case str_match s pt of Some m \<Rightarrow> Some m | None \<Rightarrow> first_match pts s)"

section \<open>NDR Parser\<close>

record ndr_result =
  recipientEmail :: "string option"
  reason :: "string option"
  originalSubject :: "string option"

definition apos :: string where
  "apos = [CHR 0x27]"

definition letter_chars :: string where
  "letter_chars = lower_chars @ upper_chars"

text \<open>\<^verbatim>\<open>[a-zA-Z0-9._%+-]+@[a-zA-Z0-9.-]+\.[a-zA-Z]{2,}\<close>\<close>

definition EMAIL :: rx where
  "EMAIL = seqs [plus (Cls (letter_chars @ digit_chars @ ''._%+-'')),
                 Cls ''@'',
                 plus (Cls (letter_chars @ digit_chars @ ''.-'')),
                 Cls ''.'',
                 Cls letter_chars, Cls letter_chars, Star (Cls letter_chars)]"

definition ws :: rx where
  "ws = Cls space_chars"

definition digit :: rx where
  "digit = Cls digit_chars"

text \<open>\<^verbatim>\<open>.\<close> matches anything but a line terminator.\<close>

definition any_char :: rx where
  "any_char = NCls [CHR 0x0A, CHR 0x0D]"

definition SUBJECT_UNDELIVERABLE :: pat where
  "SUBJECT_UNDELIVERABLE = (True, seqs [lit ''Undeliverable:'', Star ws], plus any_char, Eps)"

definition SUBJECT_DSN :: pat where
  "SUBJECT_DSN =
    (True, seqs [lit ''Delivery Status Notification'', LazyStar any_char, lit '':'', Star ws],
     plus any_char, Eps)"

text \<open>The seven recipient patterns of process-bounce-checks, in the order of the source.\<close>

definition PAT_YOUR_MESSAGE_TO :: pat where
  "PAT_YOUR_MESSAGE_TO =
    (True, seqs [lit ''Your message to'', plus ws, opt (Cls ''<'')], EMAIL,
           seqs [opt (Cls ''>''), plus ws, lit ''couldn'', Cls apos, lit ''t be delivered''])"

definition PAT_MESSAGE_TO :: pat where
  "PAT_MESSAGE_TO =
    (True, seqs [lit ''message to'', plus ws, opt (Cls ''<'')], EMAIL,
           seqs [opt (Cls ''>''), plus ws, lit ''couldn'', Cls apos, lit ''t be delivered''])"

definition PAT_COULDNT_DELIVER_TO :: pat where
  "PAT_COULDNT_DELIVER_TO =
    (True, seqs [lit ''couldn'', Cls apos, lit ''t deliver to'', plus ws, opt (Cls ''<'')], EMAIL,
           opt (Cls ''>''))"

definition PAT_TO_HEADER :: pat where
  "PAT_TO_HEADER =
    (True, seqs [alts [lit ''To'', lit ''Recipient'', lit ''Address''], lit '':'', Star ws,
                 opt (Cls ''<'')], EMAIL, opt (Cls ''>''))"

definition PAT_DELIVERY_TO_FAILED :: pat where
  "PAT_DELIVERY_TO_FAILED =
    (True, seqs [lit ''delivery to'', plus ws, opt (Cls ''<'')], EMAIL,
           seqs [opt (Cls ''>''), plus ws, alts [lit ''failed'', lit ''unsuccessful'']])"

definition PAT_ANGLE_BRACKETS :: pat where
  "PAT_ANGLE_BRACKETS = (False, Cls ''<'', EMAIL, Cls ''>'')"

definition PAT_ANY_EMAIL :: pat where
  "PAT_ANY_EMAIL = (False, WordB, EMAIL, WordB)"

definition emailPatterns :: "pat list" where
  "emailPatterns =
    [PAT_YOUR_MESSAGE_TO, PAT_MESSAGE_TO, PAT_COULDNT_DELIVER_TO, PAT_TO_HEADER,
     PAT_DELIVERY_TO_FAILED, PAT_ANGLE_BRACKETS, PAT_ANY_EMAIL]"

definition not_dot_star :: rx where
  "not_dot_star = Star (NCls ''.'')"

definition SMTP_CODE :: rx where
  "SMTP_CODE = seqs [digit, Cls ''.'', digit, Cls ''.'', plus digit]"

text \<open>The nine reason patterns of process-bounce-checks; the code reads \<^verbatim>\<open>match[0]\<close>.\<close>

definition reasonPatterns :: "pat list" where
  "reasonPatterns =
    [(True, Eps,
        seqs [plus (Cls (letter_chars @ digit_chars @ ''._%+-'')), plus ws, lit ''wasn'', Cls apos,
              lit ''t found at'', plus ws, plus (Cls (letter_chars @ digit_chars @ ''.-'')),
              Cls ''.'', Cls letter_chars, Cls letter_chars, Star (Cls letter_chars)], Eps),
     (True, Eps, seqs [lit ''The email address couldn'', Cls apos, lit ''t be found'', not_dot_star], Eps),
     (True, Eps, seqs [lit ''mailbox'', plus ws,
                       alts [lit ''unavailable'', lit ''not found'', lit ''full'', lit ''disabled''],
                       not_dot_star], Eps),
     (True, Eps, seqs [lit ''user'', plus ws,
                       alts [lit ''unknown'', seqs [lit ''doesn'', Cls apos, lit ''t exist''], lit ''not found''],
                       not_dot_star], Eps),
     (True, seqs [alts [lit ''Remote Server returned'', lit ''Diagnostic information''],
                  LazyStar any_char, opt (Cls (apos @ [CHR 0x22]))],
            seqs [digit, digit, digit, plus ws, SMTP_CODE, LazyStar (NCls (apos @ [CHR 0x22]))],
            seqs [opt (Cls (apos @ [CHR 0x22])), Alt ws EndInput]),
     (True, Eps, seqs [lit ''550'', plus ws, SMTP_CODE, Star (NCls [CHR 0x0A])], Eps),
     (True, Eps, seqs [lit ''address rejected'', not_dot_star], Eps),
     (True, Eps, seqs [lit ''permanent failure'', not_dot_star], Eps),
     (True, Eps, seqs [lit ''Unknown To address'', not_dot_star], Eps)]"

text \<open>\<^verbatim>\<open>body.replace(/<[^>]*>/g, ' ').replace(/\s+/g, ' ')\<close>\<close>

definition plainBody_of :: "string \<Rightarrow> string" where
  "plainBody_of body =
    replace_all False (plus ws) '' '' None
      (replace_all False (seqs [Cls ''<'', Star (NCls ''>''), Cls ''>'']) '' '' None body)"

definition default_reason :: "string option \<Rightarrow> bool \<Rightarrow> string option" where
  "default_reason r subject_says = (if \<not> truthy r \<and> subject_says then Some ''Email could not be delivered'' else r)"

text \<open>\<open>parseNDRContent\<close> of process-bounce-checks (the Bounce Reconciliation Service).\<close>

definition parseNDRContent :: "string \<Rightarrow> string \<Rightarrow> ndr_result" where
  "parseNDRContent subj body =
    (let subjectMatch = (case str_match subj SUBJECT_UNDELIVERABLE of
                           Some m \<Rightarrow> Some m
                         | None \<Rightarrow> str_match subj SUBJECT_DSN);
         plainBody = plainBody_of body
     in \<lparr>recipientEmail = map_option (\<lambda>m. toLowerCase (snd m)) (first_match emailPatterns plainBody),
         reason = default_reason
                    (map_option (\<lambda>m. take 500 (trim (fst m))) (first_match reasonPatterns plainBody))
                    (str_includes (toLowerCase subj) ''undeliverable''
                      \<or> str_includes (toLowerCase subj) ''failure''
                      \<or> str_includes (toLowerCase subj) ''delivery status''),
         originalSubject = map_option (\<lambda>m. trim (snd m)) subjectMatch\<rparr>)"

text \<open>The four recipient patterns and six reason patterns of sync-email-bounces.\<close>

definition emailPatterns_sync :: "pat list" where
  "emailPatterns_sync =
    [PAT_TO_HEADER,
     (True, seqs [lit ''couldn'', Cls apos, lit ''t be delivered to'', plus ws, opt (Cls ''<'')], EMAIL,
            opt (Cls ''>'')),
     (True, seqs [lit ''delivery'', Star any_char, lit ''failed'', Star any_char, opt (Cls ''<'')], EMAIL,
            opt (Cls ''>'')),
     PAT_ANGLE_BRACKETS]"

definition reasonPatterns_sync :: "pat list" where
  "reasonPatterns_sync =
    [(True, seqs [alts [lit ''Remote Server returned'', lit ''Diagnostic information''],
                  LazyStar any_char, opt (Cls (apos @ [CHR 0x22]))],
            seqs [digit, digit, digit, plus ws, SMTP_CODE, LazyStar (NCls (apos @ [CHR 0x22]))],
            seqs [opt (Cls (apos @ [CHR 0x22])), Alt ws EndInput]),
     (True, Eps, seqs [lit ''550'', plus ws, SMTP_CODE, Star (NCls [CHR 0x0A])], Eps),
     (True, Eps, seqs [lit ''mailbox'', Star any_char,
                       alts [lit ''not found'', lit ''unavailable'', lit ''full'', lit ''disabled'']], Eps),
     (True, Eps, seqs [lit ''user'', Star any_char,
                       alts [lit ''unknown'', seqs [lit ''doesn'', Cls apos, lit ''t exist''], lit ''not found'']], Eps),
     (True, Eps, lit ''address rejected'', Eps),
     (True, Eps, lit ''permanent failure'', Eps)]"

text \<open>\<open>parseNDRContent\<close> of sync-email-bounces: the patterns run on the body as it is, and
  the reason is \<^verbatim>\<open>match[1]\<close>.\<close>

definition parseNDRContent_sync :: "string \<Rightarrow> string \<Rightarrow> ndr_result" where
  "parseNDRContent_sync subj body =
    \<lparr>recipientEmail = map_option (\<lambda>m. toLowerCase (snd m)) (first_match emailPatterns_sync body),
      reason = default_reason
                 (map_option (\<lambda>m. take 500 (trim (snd m))) (first_match reasonPatterns_sync body))
                 (str_includes (toLowerCase subj) ''undeliverable''
                   \<or> str_includes (toLowerCase subj) ''failure''),
      originalSubject = map_option (\<lambda>m. trim (snd m)) (str_match subj SUBJECT_UNDELIVERABLE)\<rparr>"

section \<open>Token Provider\<close>

datatype js_error = Error string

record token_request =
  tr_url :: string
  tr_client_id :: string
  tr_client_secret :: string
  tr_scope :: string
  tr_grant_type :: string

record token_response =
  tok_ok :: bool
  tok_status :: string
  tok_text :: string
  tok_access_token :: "string option"

definition token_request_of :: "string \<Rightarrow> string \<Rightarrow> string \<Rightarrow> token_request" where
  "token_request_of tenantId clientId clientSecret =
    \<lparr>tr_url = ''https://login.microsoftonline.com/'' @ tenantId @ ''/oauth2/v2.0/token'',
      tr_client_id = clientId,
      tr_client_secret = clientSecret,
      tr_scope = ''https://graph.microsoft.com/.default'',
      tr_grant_type = ''client_credentials''\<rparr>"

text \<open>
  \<open>getAccessToken\<close> of process-bounce-checks, sync-email-bounces and process-email-replies
  (the three copies are the same text). The first component lists the HTTP requests the
  call issues; the second is the thrown error or the returned \<^verbatim>\<open>data.access_token\<close>.
\<close>

definition getAccessToken ::
  "(string \<Rightarrow> string option) \<Rightarrow> (token_request \<Rightarrow> token_response)
    \<Rightarrow> token_request list \<times> (js_error + string option)" where
  "getAccessToken env fetch =
    (let tenantId = or_else (env ''AZURE_EMAIL_TENANT_ID'') (env ''AZURE_TENANT_ID'');
         clientId = or_else (env ''AZURE_EMAIL_CLIENT_ID'') (env ''AZURE_CLIENT_ID'');
         clientSecret = or_else (env ''AZURE_EMAIL_CLIENT_SECRET'') (env ''AZURE_CLIENT_SECRET'')
     in if \<not> truthy tenantId \<or> \<not> truthy clientId \<or> \<not> truthy clientSecret
        then ([], Inl (Error ''Azure credentials not configured''))
        else
          let rq = token_request_of (the tenantId) (the clientId) (the clientSecret);
              response = fetch rq
          in if \<not> tok_ok response
             then ([rq], Inl (Error (''Failed to get access token: '' @ tok_text response)))
             else ([rq], Inr (tok_access_token response)))"

text \<open>\<open>getAccessToken\<close> of send-email: the email-specific variables only.\<close>

definition EMAIL_CREDENTIALS_MESSAGE :: string where
  "EMAIL_CREDENTIALS_MESSAGE =
    ''Azure email credentials not configured. Please set AZURE_EMAIL_TENANT_ID, AZURE_EMAIL_CLIENT_ID, and AZURE_EMAIL_CLIENT_SECRET.''"

definition getAccessToken_send ::
  "(string \<Rightarrow> string option) \<Rightarrow> (token_request \<Rightarrow> token_response)
    \<Rightarrow> token_request list \<times> (js_error + string option)" where
  "getAccessToken_send env fetch =
    (let tenantId = env ''AZURE_EMAIL_TENANT_ID'';
         clientId = env ''AZURE_EMAIL_CLIENT_ID'';
         clientSecret = env ''AZURE_EMAIL_CLIENT_SECRET''
     in if \<not> truthy tenantId \<or> \<not> truthy clientId \<or> \<not> truthy clientSecret
        then ([], Inl (Error EMAIL_CREDENTIALS_MESSAGE))
        else
          let rq = token_request_of (the tenantId) (the clientId) (the clientSecret);
              response = fetch rq
          in if \<not> tok_ok response
             then ([rq], Inl (Error (''Failed to get access token: '' @ tok_status response @ '' '' @ tok_text response)))
             else ([rq], Inr (tok_access_token response)))"

section \<open>The mail provider\<close>

record graph_message =
  gm_id :: string
  gm_subject :: "string option"
  gm_body_content :: "string option"
  gm_bodyPreview :: "string option"
  gm_from_address :: "string option"
  gm_from_name :: "string option"
  gm_receivedDateTime :: "int option"
  gm_headers :: "(string \<times> string) list"

text \<open>
  What lies outside the handlers: the environment variables, the token endpoint, the
  messages a mailbox folder request returns (\<open>None\<close> when the request fails), the
  messages the NDR search of sync-email-bounces returns, and whether an update of an
  \<^verbatim>\<open>email_history\<close> row reports an error.
\<close>

record world =
  env_get :: "string \<Rightarrow> string option"
  token_endpoint :: "token_request \<Rightarrow> token_response"
  mail_folder :: "string \<Rightarrow> string \<Rightarrow> graph_message list option"
  ndr_search :: "string \<Rightarrow> graph_message list option"
  eh_update_error :: "string option \<Rightarrow> bool"

text \<open>\<^verbatim>\<open>x || ''\<close>\<close>

definition or_empty :: "string option \<Rightarrow> string" where
  "or_empty v = (case v of None \<Rightarrow> [] | Some s \<Rightarrow> s)"

section \<open>Bounce Reconciliation Service (process-bounce-checks)\<close>

record ndr =
  ndr_subject :: string
  ndr_body :: string
  ndr_recipientEmail :: string
  ndr_reason :: "string option"
  ndr_receivedDateTime :: "int option"

definition ndrKeywords :: "string list" where
  "ndrKeywords = [''undeliverable'', ''delivery status'', ''delivery failed'', ''delivery failure'',
                  ''non-delivery'', ''returned mail'', ''mail delivery'']"

definition ndrSenders :: "string list" where
  "ndrSenders = [''postmaster'', ''mailer-daemon'', ''microsoft outlook'']"

definition message_ndrs :: "graph_message \<Rightarrow> ndr list" where
  "message_ndrs msg =
    (let subj = toLowerCase (or_empty (gm_subject msg));
         fromAddress = toLowerCase (or_empty (gm_from_address msg));
         fromName = toLowerCase (or_empty (gm_from_name msg));
         isNDRSubject = list_ex (\<lambda>keyword. str_includes subj keyword) ndrKeywords;
         isNDRSender = list_ex (\<lambda>sender. str_includes fromAddress sender \<or> str_includes fromName sender)
                         ndrSenders
     in if isNDRSubject \<or> isNDRSender then
          (let bodyContent = or_empty (gm_body_content msg);
               parsed = parseNDRContent (or_empty (gm_subject msg)) bodyContent
           in if truthy (recipientEmail parsed)
              then [\<lparr>ndr_subject = or_empty (gm_subject msg),
                     ndr_body = bodyContent,
                     ndr_recipientEmail = the (recipientEmail parsed),
                     ndr_reason = reason parsed,
                     ndr_receivedDateTime = gm_receivedDateTime msg\<rparr>]
              else [])
        else [])"

definition fetchNDRsForSender :: "world \<Rightarrow> string \<Rightarrow> ndr list" where
  "fetchNDRsForSender w senderEmail =
    concat (map (\<lambda>folder. case mail_folder w senderEmail folder of
                             None \<Rightarrow> []
                           | Some messages \<Rightarrow> concat (map message_ndrs messages))
                [''Inbox'', ''JunkEmail''])"

text \<open>The fields every bounce transition writes, with the reason and the time given.\<close>

definition mark_bounced :: "string option \<Rightarrow> int \<Rightarrow> email_history \<Rightarrow> email_history" where
  "mark_bounced rsn at r =
    r\<lparr>status := ''bounced'',
      bounce_type := Some ''hard'',
      bounce_reason := rsn,
      bounced_at := Some at,
      open_count := Some 0,
      unique_opens := Some 0,
      opened_at := None,
      is_valid_open := Some False\<rparr>"

definition ndr_mark :: "ndr \<Rightarrow> int \<Rightarrow> email_history \<Rightarrow> email_history" where
  "ndr_mark matchingNDR now =
    mark_bounced (or_else (ndr_reason matchingNDR) (Some ''Email delivery failed''))
      (case ndr_receivedDateTime matchingNDR of Some t \<Rightarrow> t | None \<Rightarrow> now)"

definition find_ndr :: "ndr list \<Rightarrow> string \<Rightarrow> ndr option" where
  "find_ndr ndrs recipient =
    find (\<lambda>n. toLowerCase (ndr_recipientEmail n) = toLowerCase recipient) ndrs"

text \<open>A JavaScript \<^verbatim>\<open>Map\<close> from sender to a list, in insertion order of its keys.\<close>

fun group_add :: "string \<Rightarrow> 'a \<Rightarrow> (string \<times> 'a list) list \<Rightarrow> (string \<times> 'a list) list" where
  "group_add k v [] = [(k, [v])]"
| "group_add k v ((k', vs) # rest) =
    (if k = k' then (k', vs @ [v]) # rest else (k', vs) # group_add k v rest)"

definition group_by :: "('a \<Rightarrow> string) \<Rightarrow> 'a list \<Rightarrow> (string \<times> 'a list) list" where
  "group_by key xs = foldl (\<lambda>m x. group_add (key x) x m) [] xs"

text \<open>
  The pending query: unchecked rows that are due, at most 50, each joined with its
  \<^verbatim>\<open>email_history\<close> row as the store holds it when the query runs.
\<close>

definition pendingChecks_query ::
  "db \<Rightarrow> int \<Rightarrow> (pending_bounce_check \<times> email_history option) list" where
  "pendingChecks_query d now =
    map (\<lambda>c. (c, case email_history_id c of
                    None \<Rightarrow> None
                  | Some i \<Rightarrow> find (\<lambda>r. eh_id r = i) (email_history_tbl d)))
        (take 50 (filter (\<lambda>c. \<not> checked c \<and> check_after c \<le> now) (pending_tbl d)))"

definition already_done :: "pending_bounce_check \<times> email_history option \<Rightarrow> bool" where
  "already_done jc = (case snd jc of None \<Rightarrow> True | Some emailHistory \<Rightarrow> status emailHistory = ''bounced'')"

record pending_pass =
  pp_db :: db
  processedPendingIds :: "string list"
  bouncedPendingIds :: "string list"
  pendingBouncesFound :: nat
  processedSenders :: "string list"

definition bounce_notification :: "string \<Rightarrow> string \<Rightarrow> notification" where
  "bounce_notification uid recipient =
    \<lparr>user_id = uid,
      message = ''Email to '' @ recipient @ '' could not be delivered - address invalid or doesn''
                  @ [CHR 0x27] @ ''t exist'',
      notification_type = ''email_bounced'',
      n_status = ''unread'',
      n_lead_id = None\<rparr>"

definition process_pending_check ::
  "world \<Rightarrow> int \<Rightarrow> ndr list \<Rightarrow> pending_pass
    \<Rightarrow> pending_bounce_check \<times> email_history option \<Rightarrow> pending_pass" where
  "process_pending_check w now ndrs st jc =
    (let check = fst jc;
         d = pp_db st;
         st1 =
           (case find_ndr ndrs (pbc_recipient_email check) of
              None \<Rightarrow> st
            | Some matchingNDR \<Rightarrow>
                if eh_update_error w (email_history_id check) then st
                else
                  let d1 = d\<lparr>email_history_tbl :=
                               update_where (\<lambda>r. Some (eh_id r) = email_history_id check)
                                 (ndr_mark matchingNDR now) (email_history_tbl d)\<rparr>;
                      d2 = (case snd jc of
                              None \<Rightarrow> d1
                            | Some emailHistory \<Rightarrow>
                                if truthy (sent_by emailHistory)
                                then d1\<lparr>notifications_tbl := notifications_tbl d1 @
                                         [bounce_notification (the (sent_by emailHistory))
                                            (pbc_recipient_email check)]\<rparr>
                                else d1)
                  in st\<lparr>pp_db := d2,
                        pendingBouncesFound := pendingBouncesFound st + 1,
                        bouncedPendingIds := bouncedPendingIds st @ [pbc_id check]\<rparr>)
     in st1\<lparr>processedPendingIds := processedPendingIds st1 @ [pbc_id check]\<rparr>)"

definition process_pending_sender ::
  "world \<Rightarrow> int \<Rightarrow> pending_pass
    \<Rightarrow> string \<times> (pending_bounce_check \<times> email_history option) list \<Rightarrow> pending_pass" where
  "process_pending_sender w now st entry =
    (let senderEmail = fst entry; checks = snd entry in
     if checks = [] then st
     else
       let ndrs = fetchNDRsForSender w senderEmail;
           st1 = st\<lparr>processedSenders := processedSenders st @ [senderEmail]\<rparr>
       in foldl (process_pending_check w now ndrs) st1 checks)"

definition pending_pass_run :: "world \<Rightarrow> int \<Rightarrow> db \<Rightarrow> pending_pass" where
  "pending_pass_run w now d =
    (let pendingChecks = pendingChecks_query d now;
         st0 = \<lparr>pp_db = d,
                processedPendingIds = map (\<lambda>jc. pbc_id (fst jc)) (filter already_done pendingChecks),
                bouncedPendingIds = [],
                pendingBouncesFound = 0,
                processedSenders = []\<rparr>;
         pendingBySender = group_by (\<lambda>jc. pbc_sender_email (fst jc))
                             (filter (\<lambda>jc. \<not> already_done jc) pendingChecks)
     in foldl (process_pending_sender w now) st0 pendingBySender)"

text \<open>The two updates of \<^verbatim>\<open>pending_bounce_checks\<close> after the pending pass.\<close>

definition mark_checked :: "pending_pass \<Rightarrow> pending_bounce_check list \<Rightarrow> pending_bounce_check list" where
  "mark_checked st rows =
    (let okPendingIds = filter (\<lambda>i. i \<notin> set (bouncedPendingIds st)) (processedPendingIds st);
         rows1 = update_where (\<lambda>c. pbc_id c \<in> set (bouncedPendingIds st))
                   (\<lambda>c. c\<lparr>checked := True, check_result := Some ''bounced''\<rparr>) rows
     in update_where (\<lambda>c. pbc_id c \<in> set okPendingIds)
          (\<lambda>c. c\<lparr>checked := True, check_result := Some ''ok''\<rparr>) rows1)"

text \<open>
  The general sweep: rows of the last 72 hours that are not bounced, latest first, at most
  100, grouped by sender; a sender the pending pass fetched is skipped.
\<close>

definition recentEmails_query :: "db \<Rightarrow> int \<Rightarrow> email_history list" where
  "recentEmails_query d sinceDate =
    take 100 (rev (sort_key (\<lambda>r. or_zero (sent_at r))
      (filter (\<lambda>r. (case sent_at r of None \<Rightarrow> False | Some t \<Rightarrow> sinceDate \<le> t) \<and> status r \<noteq> ''bounced'')
              (email_history_tbl d))))"

definition sweep_email :: "world \<Rightarrow> int \<Rightarrow> ndr list \<Rightarrow> db \<times> nat \<Rightarrow> email_history \<Rightarrow> db \<times> nat" where
  "sweep_email w now ndrs st email =
    (case find_ndr ndrs (recipient_email email) of
       None \<Rightarrow> st
     | Some matchingNDR \<Rightarrow>
         if eh_update_error w (Some (eh_id email)) then st
         else ((fst st)\<lparr>email_history_tbl :=
                          update_where (\<lambda>r. eh_id r = eh_id email) (ndr_mark matchingNDR now)
                            (email_history_tbl (fst st))\<rparr>,
               snd st + 1))"

definition sweep_sender ::
  "world \<Rightarrow> int \<Rightarrow> string list \<Rightarrow> db \<times> nat \<Rightarrow> string \<times> email_history list \<Rightarrow> db \<times> nat" where
  "sweep_sender w now done st entry =
    (if fst entry \<in> set done then st
     else foldl (sweep_email w now (fetchNDRsForSender w (fst entry))) st (snd entry))"

definition general_sweep :: "world \<Rightarrow> int \<Rightarrow> string list \<Rightarrow> db \<Rightarrow> db \<times> nat" where
  "general_sweep w now done d =
    foldl (sweep_sender w now done) (d, 0)
      (group_by sender_email (recentEmails_query d (now - 72 * 60 * 60 * 1000)))"

datatype bounce_response =
    Preflight
  | AuthFailed string
  | Summary nat nat nat

definition process_bounce_checks :: "world \<Rightarrow> int \<Rightarrow> string \<Rightarrow> db \<Rightarrow> db \<times> bounce_response" where
  "process_bounce_checks w now method d =
    (if method = ''OPTIONS'' then (d, Preflight)
     else
       case snd (getAccessToken (env_get w) (token_endpoint w)) of
         Inl (Error msg) \<Rightarrow> (d, AuthFailed msg)
       | Inr accessToken \<Rightarrow>
           let st = pending_pass_run w now d;
               d1 = (pp_db st)\<lparr>pending_tbl := mark_checked st (pending_tbl (pp_db st))\<rparr>;
               sw = general_sweep w now (processedSenders st) d1;
               d2 = (fst sw)\<lparr>pending_tbl :=
                       filter (\<lambda>c. \<not> created_at c < now - 7 * 24 * 60 * 60 * 1000) (pending_tbl (fst sw))\<rparr>
           in (d2, Summary (length (processedPendingIds st)) (pendingBouncesFound st) (snd sw)))"

section \<open>Bounce synchronisation (sync-email-bounces)\<close>

text \<open>
  \<^verbatim>\<open>.ilike(column, pattern)\<close>: SQL \<^verbatim>\<open>ILIKE\<close>. In the pattern \<^verbatim>\<open>%\<close> (and \<^verbatim>\<open>*\<close>, its
  alias in the REST layer) matches any sequence, \<^verbatim>\<open>_\<close> any one character, a backslash
  makes the next character literal; letters compare without case.
\<close>

fun like_match :: "string \<Rightarrow> string \<Rightarrow> bool" where
  "like_match [] t = (t = [])"
| "like_match (p # ps) t =
    (if p = CHR ''%'' \<or> p = CHR ''*'' then
       (if like_match ps t then True
        else (case t of [] \<Rightarrow> False | c # t' \<Rightarrow> like_match (p # ps) t'))
     else if p = CHR ''_'' then (case t of [] \<Rightarrow> False | c # t' \<Rightarrow> like_match ps t')
     else if p = CHR 0x5C then
       (case ps of
          [] \<Rightarrow> False
        | q # qs \<Rightarrow> (case t of [] \<Rightarrow> False | c # t' \<Rightarrow> c = q \<and> like_match qs t'))
     else (case t of [] \<Rightarrow> False | c # t' \<Rightarrow> c = p \<and> like_match ps t'))"

definition ilike :: "string \<Rightarrow> string \<Rightarrow> bool" where
  "ilike pattern text = like_match (toLowerCase pattern) (toLowerCase text)"

record sync_request =
  sr_method :: string
  sr_authorized :: bool
  sr_fromEmail :: "string option"
  sr_sinceHours :: int

datatype sync_response =
    SyncPreflight
  | Unauthorized
  | NothingToCheck
  | SyncFailed string
  | SyncSummary nat "string list"

text \<open>\<^verbatim>\<open>[...new Set(xs)]\<close>: the first occurrence of each element, in order.\<close>

definition unique_in_order :: "string list \<Rightarrow> string list" where
  "unique_in_order xs = rev (remdups (rev xs))"

definition sync_matching_emails ::
  "db \<Rightarrow> int \<Rightarrow> int \<Rightarrow> string \<Rightarrow> string \<Rightarrow> string option \<Rightarrow> email_history list" where
  "sync_matching_emails d now sinceHours senderEmail recipient originalSubj =
    take 5 (filter (\<lambda>r.
        sender_email r = senderEmail
      \<and> ilike recipient (recipient_email r)
      \<and> status r \<noteq> ''bounced''
      \<and> (case sent_at r of None \<Rightarrow> False | Some t \<Rightarrow> now - (sinceHours + 24) * 60 * 60 * 1000 \<le> t)
      \<and> (if truthy originalSubj
         then ilike (''%'' @ take 50 (the originalSubj) @ ''%'') (subject r)
         else True))
      (email_history_tbl d))"

text \<open>The update of one matching row and the correction of its contact.\<close>

definition sync_bounce_email ::
  "string option \<Rightarrow> int \<Rightarrow> string \<Rightarrow> db \<times> nat \<times> string list \<Rightarrow> email_history
    \<Rightarrow> db \<times> nat \<times> string list" where
  "sync_bounce_email rsn at recipient st email =
    (let d = fst st;
         d1 = d\<lparr>email_history_tbl :=
                  update_where (\<lambda>r. eh_id r = eh_id email) (mark_bounced rsn at) (email_history_tbl d)\<rparr>;
         d2 =
           (if truthy (contact_id email) \<and> or_zero (open_count email) > 0 then
              (case single_row (\<lambda>c. c_id c = the (contact_id email)) (contacts_tbl d1) of
                 None \<Rightarrow> d1
               | Some contact \<Rightarrow>
                   d1\<lparr>contacts_tbl :=
                        update_where (\<lambda>c. c_id c = the (contact_id email))
                          (\<lambda>c. c\<lparr>email_opens := Some (max 0 (or_zero (email_opens contact) - 1)),
                                 engagement_score := Some (max 0 (or_zero (engagement_score contact) - 10))\<rparr>)
                          (contacts_tbl d1)\<rparr>)
            else d1)
     in (d2, fst (snd st) + 1, snd (snd st) @ [recipient]))"

definition sync_ndr ::
  "int \<Rightarrow> int \<Rightarrow> string \<Rightarrow> db \<times> nat \<times> string list \<Rightarrow> graph_message \<Rightarrow> db \<times> nat \<times> string list" where
  "sync_ndr now sinceHours senderEmail st ndrMsg =
    (let parsed = parseNDRContent_sync (or_empty (gm_subject ndrMsg)) (or_empty (gm_body_content ndrMsg)) in
     if \<not> truthy (recipientEmail parsed) then st
     else
       foldl (sync_bounce_email (reason parsed)
                (case gm_receivedDateTime ndrMsg of Some t \<Rightarrow> t | None \<Rightarrow> now)
                (the (recipientEmail parsed)))
             st
             (sync_matching_emails (fst st) now sinceHours senderEmail
                (the (recipientEmail parsed)) (originalSubject parsed)))"

definition sync_sender ::
  "world \<Rightarrow> int \<Rightarrow> int \<Rightarrow> db \<times> nat \<times> string list \<Rightarrow> string \<Rightarrow> db \<times> nat \<times> string list" where
  "sync_sender w now sinceHours st senderEmail =
    (case ndr_search w senderEmail of
       None \<Rightarrow> st
     | Some ndrMessages \<Rightarrow> foldl (sync_ndr now sinceHours senderEmail) st ndrMessages)"

definition sync_email_bounces :: "world \<Rightarrow> int \<Rightarrow> sync_request \<Rightarrow> db \<Rightarrow> db \<times> sync_response" where
  "sync_email_bounces w now req d =
    (if sr_method req = ''OPTIONS'' then (d, SyncPreflight)
     else if \<not> sr_authorized req then (d, Unauthorized)
     else
       let sinceHours = sr_sinceHours req;
           senderEmails =
             (if truthy (sr_fromEmail req) then [the (sr_fromEmail req)]
              else unique_in_order (map sender_email
                     (filter (\<lambda>r. (case sent_at r of
                                      None \<Rightarrow> False
                                    | Some t \<Rightarrow> now - sinceHours * 60 * 60 * 1000 \<le> t)
                                  \<and> status r \<noteq> ''bounced'')
                             (email_history_tbl d))))
       in if senderEmails = [] then (d, NothingToCheck)
          else
            case snd (getAccessToken (env_get w) (token_endpoint w)) of
              Inl (Error msg) \<Rightarrow> (d, SyncFailed msg)
            | Inr accessToken \<Rightarrow>
                let st = foldl (sync_sender w now sinceHours) (d, 0, []) senderEmails
                in (fst st, SyncSummary (fst (snd st)) (unique_in_order (snd (snd st)))))"

section \<open>Reply Reconciliation Service (process-email-replies)\<close>

record ReplyInfo =
  ri_from_email :: string
  ri_from_name :: "string option"
  ri_subject :: string
  ri_body_preview :: string
  ri_received_at :: "int option"
  ri_graph_message_id :: string
  ri_in_reply_to :: "string option"

definition header_value :: "string \<Rightarrow> (string \<times> string) list \<Rightarrow> string option" where
  "header_value name hs = map_option snd (find (\<lambda>h. toLowerCase (fst h) = name) hs)"

text \<open>\<^verbatim>\<open>s.replace(/^<|>$/g, '')\<close>\<close>

definition strip_angle :: "string \<Rightarrow> string" where
  "strip_angle s =
    (let s1 = (case s of c # cs \<Rightarrow> if c = CHR ''<'' then cs else s | [] \<Rightarrow> s)
     in if s1 \<noteq> [] \<and> last s = CHR ''>'' then butlast s1 else s1)"

text \<open>The last element of \<^verbatim>\<open>references.split(/\s+/)\<close>.\<close>

definition last_reference :: "string \<Rightarrow> string" where
  "last_reference refs = rev (takeWhile (\<lambda>c. c \<notin> set space_chars) (rev refs))"

definition message_reply :: "graph_message \<Rightarrow> ReplyInfo list" where
  "message_reply msg =
    (let inReplyTo = header_value ''in-reply-to'' (gm_headers msg);
         refs = header_value ''references'' (gm_headers msg)
     in if \<not> truthy inReplyTo \<and> \<not> truthy refs then []
        else
          let replyToMessageId =
                (if \<not> truthy inReplyTo \<and> truthy refs then Some (last_reference (the refs))
                 else inReplyTo)
          in if truthy replyToMessageId
             then [\<lparr>ri_from_email = or_empty (gm_from_address msg),
                    ri_from_name = (if truthy (gm_from_name msg) then gm_from_name msg else None),
                    ri_subject = or_empty (gm_subject msg),
                    ri_body_preview = take 500 (or_empty (gm_bodyPreview msg)),
                    ri_received_at = gm_receivedDateTime msg,
                    ri_graph_message_id = gm_id msg,
                    ri_in_reply_to = Some (strip_angle (the replyToMessageId))\<rparr>]
             else [])"

definition fetchInboxReplies :: "world \<Rightarrow> string \<Rightarrow> ReplyInfo list" where
  "fetchInboxReplies w senderEmail =
    (case mail_folder w senderEmail ''Inbox'' of
       None \<Rightarrow> []
     | Some messages \<Rightarrow> concat (map message_reply messages))"

text \<open>The \<^verbatim>\<open>Map\<close> from message id to sent email, with and without angle brackets.\<close>

definition messageIdToEmail :: "email_history list \<Rightarrow> string \<Rightarrow> email_history option" where
  "messageIdToEmail emails =
    foldl (\<lambda>m email.
             if truthy (message_id email)
             then (m(the (message_id email) \<mapsto> email))(strip_angle (the (message_id email)) \<mapsto> email)
             else m)
          Map.empty emails"

text \<open>
  The update object of a newly recorded reply, built from the row as the query at the
  start of the run returned it (\<open>originalEmail\<close>).
\<close>

definition reply_update :: "email_history \<Rightarrow> int \<Rightarrow> email_history \<Rightarrow> email_history" where
  "reply_update originalEmail received r =
    (let currentReplyCount = or_zero (reply_count originalEmail);
         isFirstReply = (currentReplyCount = 0);
         r1 = r\<lparr>reply_count := Some (currentReplyCount + 1),
                last_reply_at := Some received,
                status := ''replied''\<rparr>
     in if isFirstReply then r1\<lparr>replied_at := Some received\<rparr> else r1)"

text \<open>
  One reply of the inner loop. The insert fails when \<^verbatim>\<open>received_at\<close> (a \<^verbatim>\<open>NOT NULL\<close>
  column) is missing.
\<close>

definition process_reply ::
  "world \<Rightarrow> (string \<Rightarrow> email_history option) \<Rightarrow> db \<times> nat \<times> string list \<Rightarrow> ReplyInfo
    \<Rightarrow> db \<times> nat \<times> string list" where
  "process_reply w idmap st reply =
    (if \<not> truthy (ri_in_reply_to reply) then st
     else
       case (case idmap (the (ri_in_reply_to reply)) of
               Some e \<Rightarrow> Some e
             | None \<Rightarrow> idmap (''<'' @ the (ri_in_reply_to reply) @ ''>'')) of
         None \<Rightarrow> st
       | Some originalEmail \<Rightarrow>
           let d = fst st in
           (case single_row (\<lambda>r. er_email_history_id r = eh_id originalEmail
                                 \<and> graph_message_id r = ri_graph_message_id reply) (replies_tbl d) of
              Some existingReply \<Rightarrow> st
            | None \<Rightarrow>
                (case ri_received_at reply of
                   None \<Rightarrow> st
                 | Some received \<Rightarrow>
                     let d1 = d\<lparr>replies_tbl := replies_tbl d @
                                  [\<lparr>er_email_history_id = eh_id originalEmail,
                                    from_email = ri_from_email reply,
                                    from_name = ri_from_name reply,
                                    er_subject = ri_subject reply,
                                    body_preview = ri_body_preview reply,
                                    received_at = received,
                                    graph_message_id = ri_graph_message_id reply\<rparr>]\<rparr>
                     in if eh_update_error w (Some (eh_id originalEmail)) then (d1, snd st)
                        else
                          let d2 = d1\<lparr>email_history_tbl :=
                                        update_where (\<lambda>r. eh_id r = eh_id originalEmail)
                                          (reply_update originalEmail received) (email_history_tbl d1)\<rparr>;
                              d3 = (if truthy (sent_by originalEmail)
                                    then d2\<lparr>notifications_tbl := notifications_tbl d2 @
                                           [\<lparr>user_id = the (sent_by originalEmail),
                                             message = the (or_else (ri_from_name reply) (Some (ri_from_email reply)))
                                                         @ '' replied to your email: '' @ [CHR 0x22]
                                                         @ subject originalEmail @ [CHR 0x22],
                                             notification_type = ''email_replied'',
                                             n_status = ''unread'',
                                             n_lead_id = None\<rparr>]\<rparr>
                                    else d2)
                          in (d3, fst (snd st) + 1, snd (snd st) @ [eh_id originalEmail]))))"

definition process_reply_sender ::
  "world \<Rightarrow> db \<times> nat \<times> string list \<Rightarrow> string \<times> email_history list \<Rightarrow> db \<times> nat \<times> string list" where
  "process_reply_sender w st entry =
    foldl (process_reply w (messageIdToEmail (snd entry))) st (fetchInboxReplies w (fst entry))"

definition sentEmails_query :: "db \<Rightarrow> int \<Rightarrow> email_history list" where
  "sentEmails_query d sinceDate =
    rev (sort_key (\<lambda>r. or_zero (sent_at r))
      (filter (\<lambda>r. (case sent_at r of None \<Rightarrow> False | Some t \<Rightarrow> sinceDate \<le> t)
                  \<and> message_id r \<noteq> None
                  \<and> status r \<noteq> ''bounced'')
              (email_history_tbl d)))"

datatype reply_response =
    ReplyPreflight
  | ReplyAuthFailed
  | NoEmails
  | ReplySummary nat nat "string list"

definition process_email_replies :: "world \<Rightarrow> int \<Rightarrow> string \<Rightarrow> db \<Rightarrow> db \<times> reply_response" where
  "process_email_replies w now method d =
    (if method = ''OPTIONS'' then (d, ReplyPreflight)
     else
       case snd (getAccessToken (env_get w) (token_endpoint w)) of
         Inl (Error msg) \<Rightarrow> (d, ReplyAuthFailed)
       | Inr accessToken \<Rightarrow>
           let sentEmails = sentEmails_query d (now - 7 * 24 * 60 * 60 * 1000) in
           if sentEmails = [] then (d, NoEmails)
           else
             let st = foldl (process_reply_sender w) (d, 0, []) (group_by sender_email sentEmails)
             in (fst st, ReplySummary (length sentEmails) (fst (snd st)) (snd (snd st))))"

section \<open>Invariants of the record store\<close>



definition bounced_record :: "email_history \<Rightarrow> bool" where
  "bounced_record r \<longleftrightarrow>
     status r = ''bounced'' \<and> truthy (bounce_type r) \<and> is_valid_open r = Some False"

text \<open>The ids of the rows of a table that are not bounced.\<close>

definition live_ids :: "email_history list \<Rightarrow> string set" where
  "live_ids t = eh_id ` {r \<in> set t. status r \<noteq> ''bounced''}"

section \<open>Example data\<close>

text \<open>An email \<open>E1\<close> sent at \<open>t0 = 1000000\<close> to a linked contact, and browser requests for its pixel.\<close>

definition E1 :: email_history where
  "E1 = \<lparr>eh_id = ''E1'', recipient_email = ''jane@acme.com'', recipient_name = Some ''Jane'',
          sender_email = ''rep@corp.com'', subject = ''Hello'', status = ''sent'',
          sent_at = Some 1000000, sent_by = Some ''U1'', contact_id = Some ''K1'',
          lead_id = None, account_id = None, open_count = Some 0, unique_opens = Some 0,
          first_open_ip = None, opened_at = None, is_valid_open = Some True,
          bounce_type = None, bounce_reason = None, bounced_at = None,
          message_id = Some ''<m1@corp.com>'', reply_count = Some 0, replied_at = None,
          last_reply_at = None\<rparr>"

definition K1 :: contact where
  "K1 = \<lparr>c_id = ''K1'', email_opens = Some 0, engagement_score = Some 0\<rparr>"

definition D0 :: db where
  "D0 = \<lparr>email_history_tbl = [E1], contacts_tbl = [K1], notifications_tbl = [],
          pending_tbl = [], replies_tbl = []\<rparr>"

definition browser_request :: "string \<Rightarrow> request" where
  "browser_request ip =
    \<lparr>query_id = Some ''E1'', user_agent = Some ''Mozilla/5.0'',
      x_forwarded_for = Some ip, x_real_ip = None, cf_connecting_ip = None\<rparr>"

definition googlebot_request :: request where
  "googlebot_request =
    \<lparr>query_id = Some ''E1'', user_agent = Some ''googlebot/2.1'',
      x_forwarded_for = Some ''66.249.66.1'', x_real_ip = None, cf_connecting_ip = None\<rparr>"

definition no_faults :: faults where
  "no_faults = \<lparr>client_throws = False, fetch_error = False, update_error = False,
                 notif_error = False, throws_late = False\<rparr>"

text \<open>
  \<open>E1\<close> after its first open (10 seconds after the send, from 1.1.1.1) with the contact
  credited, the queued bounce check of \<open>E1\<close>, a non-delivery report for its recipient in
  the sender's inbox, and two replies to \<open>E1\<close>.
\<close>

definition E1_opened :: email_history where
  "E1_opened = E1\<lparr>status := ''opened'', open_count := Some 1, unique_opens := Some 1,
                  first_open_ip := Some ''1.1.1.1'', opened_at := Some 1010000\<rparr>"

definition K1_credited :: contact where
  "K1_credited = \<lparr>c_id = ''K1'', email_opens = Some 1, engagement_score = Some 5\<rparr>"

definition P1 :: pending_bounce_check where
  "P1 = \<lparr>pbc_id = ''P1'', email_history_id = Some ''E1'', pbc_sender_email = ''rep@corp.com'',
          pbc_recipient_email = ''jane@acme.com'', check_after = 1045000, checked = False,
          check_result = None, created_at = 1001000\<rparr>"

definition D1 :: db where
  "D1 = \<lparr>email_history_tbl = [E1_opened], contacts_tbl = [K1_credited], notifications_tbl = [],
          pending_tbl = [P1], replies_tbl = []\<rparr>"

definition NDR1 :: graph_message where
  "NDR1 = \<lparr>gm_id = ''N1'', gm_subject = Some ''Undeliverable: Hello'',
            gm_body_content = Some ''To: Jane@acme.com'', gm_bodyPreview = None,
            gm_from_address = Some ''postmaster@corp.com'', gm_from_name = Some ''Microsoft Outlook'',
            gm_receivedDateTime = Some 1030000, gm_headers = []\<rparr>"

definition reply_message :: "string \<Rightarrow> int \<Rightarrow> graph_message" where
  "reply_message gid received =
    \<lparr>gm_id = gid, gm_subject = Some ''RE: Hello'', gm_body_content = None,
      gm_bodyPreview = Some ''Thanks'', gm_from_address = Some ''jane@acme.com'',
      gm_from_name = Some ''Jane'', gm_receivedDateTime = Some received,
      gm_headers = [(''In-Reply-To'', ''<m1@corp.com>'')]\<rparr>"

definition azure_env :: "string \<Rightarrow> string option" where
  "azure_env = (\<lambda>k. None)(''AZURE_EMAIL_TENANT_ID'' \<mapsto> ''tenant'', ''AZURE_EMAIL_CLIENT_ID'' \<mapsto> ''client'',
                          ''AZURE_EMAIL_CLIENT_SECRET'' \<mapsto> ''secret'')"

definition token_ok :: "token_request \<Rightarrow> token_response" where
  "token_ok rq = \<lparr>tok_ok = True, tok_status = ''200'', tok_text = [], tok_access_token = Some ''tok''\<rparr>"

definition inbox_world :: "graph_message list \<Rightarrow> world" where
  "inbox_world msgs =
    \<lparr>env_get = azure_env,
      token_endpoint = token_ok,
      mail_folder = (\<lambda>sender folder. if sender = ''rep@corp.com'' \<and> folder = ''Inbox'' then Some msgs else Some []),
      ndr_search = (\<lambda>sender. if sender = ''rep@corp.com'' then Some msgs else Some []),
      eh_update_error = (\<lambda>i. False)\<rparr>"

text \<open>\<open>E1\<close> bounced by that report, as the pending pass leaves it.\<close>

definition E1_bounced :: email_history where
  "E1_bounced = mark_bounced (Some ''Email could not be delivered'') 1030000 E1_opened"

definition D2 :: db where
  "D2 = \<lparr>email_history_tbl = [E1_bounced], contacts_tbl = [K1_credited], notifications_tbl = [],
          pending_tbl = [P1\<lparr>checked := True, check_result := Some ''bounced''\<rparr>], replies_tbl = []\<rparr>"

definition sync_all :: sync_request where
  "sync_all = \<lparr>sr_method = ''POST'', sr_authorized = True, sr_fromEmail = None, sr_sinceHours = 48\<rparr>"

text \<open>
  Bodies of non-delivery reports: one with another address before the provider's phrase,
  one with a \<^verbatim>\<open>To:\<close> header after it, one with the recipient in angle brackets, and the
  one of the specification's scenario.
\<close>

definition BODY_FALLBACK_FIRST :: string where
  "BODY_FALLBACK_FIRST = ''Contact c@d.com. Your message to A@b.com couldn'' @ apos @ ''t be delivered.''"

definition BODY_WITH_TO_HEADER :: string where
  "BODY_WITH_TO_HEADER = ''Your message to a@b.com couldn'' @ apos @ ''t be delivered. To: c@d.com''"

definition BODY_ANGLE_BRACKETS :: string where
  "BODY_ANGLE_BRACKETS = ''Your message to <a@b.com> couldn'' @ apos @ ''t be delivered. Contact c@d.com''"

definition BODY_SCENARIO :: string where
  "BODY_SCENARIO = ''Your message to jane@acme.com couldn'' @ apos @ ''t be delivered. jane wasn''
                      @ apos @ ''t found at acme.com''"

text \<open>A contact with two opens and a score of 20 before the first open of \<open>E1\<close> credited it.\<close>

definition K1_engaged :: contact where
  "K1_engaged = \<lparr>c_id = ''K1'', email_opens = Some 3, engagement_score = Some 25\<rparr>"

section \<open>Theorems\<close>

subsection \<open>Open tracking: the response\<close>

lemma TRACKING_PIXEL_length: "length TRACKING_PIXEL = 43"
  by (simp add: TRACKING_PIXEL_def)

lemma handler_response: "snd (handler d now req flt) = Response TRACKING_PIXEL PIXEL_HEADERS"
  unfolding handler_def handler_try_def
  by (simp add: Let_def split: option.splits prod.splits if_splits)

text \<open>
  C8. Whatever the request, the store and the faults of the run (no identifier, a bot, no
  such record, a bounced record, a premature open, a failed update, a thrown error), the
  handler answers with status 200, the fixed GIF of 43 bytes and the no-cache headers.
\<close>

theorem C8_pixel_always_served:
  "snd (handler d now req flt) = Response TRACKING_PIXEL PIXEL_HEADERS
   \<and> resp_status (snd (handler d now req flt)) = 200
   \<and> resp_body (snd (handler d now req flt)) = TRACKING_PIXEL
   \<and> length (resp_body (snd (handler d now req flt))) = 43
   \<and> map_of (resp_headers (snd (handler d now req flt))) ''Content-Type'' = Some ''image/gif''
   \<and> map_of (resp_headers (snd (handler d now req flt))) ''Cache-Control''
        = Some ''no-store, no-cache, must-revalidate, proxy-revalidate''
   \<and> map_of (resp_headers (snd (handler d now req flt))) ''Pragma'' = Some ''no-cache''
   \<and> map_of (resp_headers (snd (handler d now req flt))) ''Expires'' = Some ''0''"
  by (simp add: handler_response Response_def TRACKING_PIXEL_length PIXEL_HEADERS_def)

theorem C8_pixel_always_served_witness:
  "snd (handler \<lparr>email_history_tbl = [], contacts_tbl = [], notifications_tbl = [],
                  pending_tbl = [], replies_tbl = []\<rparr> 0
          \<lparr>query_id = Some ''E1'', user_agent = Some ''Mozilla/5.0'', x_forwarded_for = None,
            x_real_ip = None, cf_connecting_ip = None\<rparr>
          \<lparr>client_throws = True, fetch_error = False, update_error = False, notif_error = False,
            throws_late = False\<rparr>)
     = \<lparr>resp_status = 200, resp_headers = PIXEL_HEADERS, resp_body = TRACKING_PIXEL\<rparr>"
  using C8_pixel_always_served
    [of "\<lparr>email_history_tbl = [], contacts_tbl = [], notifications_tbl = [],
           pending_tbl = [], replies_tbl = []\<rparr>" 0
        "\<lparr>query_id = Some ''E1'', user_agent = Some ''Mozilla/5.0'', x_forwarded_for = None,
           x_real_ip = None, cf_connecting_ip = None\<rparr>"
        "\<lparr>client_throws = True, fetch_error = False, update_error = False, notif_error = False,
           throws_late = False\<rparr>"]
  by (simp add: Response_def)

subsection \<open>Open tracking: what a run writes\<close>

lemma filter_update_where:
  assumes "\<And>x. P (f x) = P x"
  shows "filter P (update_where P f xs) = map f (filter P xs)"
  by (induction xs) (simp_all add: update_where_def assms)

lemma single_row_update_where:
  assumes "single_row P xs = Some r" and "\<And>x. P (f x) = P x"
  shows "single_row P (update_where P f xs) = Some (f r)"
  using assms(1) unfolding single_row_def filter_update_where [of P f, OF assms(2)]
  by (auto split: list.splits)

lemma first_open_effects_emails [simp]:
  "email_history_tbl (first_open_effects e flt d) = email_history_tbl d"
  by (simp add: first_open_effects_def Let_def split: option.splits)

lemma handler_email_table:
  "email_history_tbl (fst (handler d now req flt)) =
    (if \<not> truthy (query_id req) then email_history_tbl d
     else if isBotUserAgent (user_agent req) then
       (if client_throws flt \<or> update_error flt then email_history_tbl d
        else update_where (\<lambda>r. eh_id r = the (query_id req)) (\<lambda>r. r\<lparr>is_valid_open := Some False\<rparr>)
               (email_history_tbl d))
     else if client_throws flt \<or> fetch_error flt then email_history_tbl d
     else (case single_row (\<lambda>r. eh_id r = the (query_id req)) (email_history_tbl d) of
             None \<Rightarrow> email_history_tbl d
           | Some emailData \<Rightarrow>
               if truthy (bounce_type emailData) \<or> update_error flt then email_history_tbl d
               else if now - or_zero (sent_at emailData) < 5000
               then update_where (\<lambda>r. eh_id r = the (query_id req)) (\<lambda>r. r\<lparr>is_valid_open := Some False\<rparr>)
                      (email_history_tbl d)
               else update_where (\<lambda>r. eh_id r = the (query_id req))
                      (open_update emailData now (getClientIP req)) (email_history_tbl d)))"
  unfolding handler_def handler_try_def MIN_OPEN_DELAY_SECONDS_def
  by (simp add: Let_def split: option.splits)

lemma update_where_same:
  assumes "\<And>x. x \<in> set xs \<Longrightarrow> P x \<Longrightarrow> f x = x"
  shows "update_where P f xs = xs"
  using assms by (induction xs) (simp_all add: update_where_def)

lemma single_row_unique:
  assumes "single_row P xs = Some r" and "x \<in> set xs" and "P x"
  shows "x = r"
proof -
  from assms(1) have "filter P xs = [r]"
    by (auto simp: single_row_def split: list.splits)
  moreover from assms(2,3) have "x \<in> set (filter P xs)" by simp
  ultimately show ?thesis by simp
qed

lemma map_update_where_field:
  assumes "\<And>x. g (f x) = g x"
  shows "map g (update_where P f xs) = map g xs"
  by (induction xs) (simp_all add: update_where_def assms)

lemma handler_contacts:
  "contacts_tbl (fst (handler d now req flt)) =
    (if truthy (query_id req) \<and> \<not> isBotUserAgent (user_agent req) \<and> \<not> client_throws flt
        \<and> \<not> fetch_error flt \<and> \<not> throws_late flt
     then (case single_row (\<lambda>r. eh_id r = the (query_id req)) (email_history_tbl d) of
             None \<Rightarrow> contacts_tbl d
           | Some emailData \<Rightarrow>
               if \<not> truthy (bounce_type emailData) \<and> \<not> now - or_zero (sent_at emailData) < 5000
                  \<and> or_zero (open_count emailData) = 0
               then contacts_tbl (first_open_effects emailData flt d)
               else contacts_tbl d)
     else contacts_tbl d)"
  unfolding handler_def handler_try_def MIN_OPEN_DELAY_SECONDS_def
  by (simp add: Let_def first_open_effects_def split: option.splits)

text \<open>
  C5. A request for the pixel of a record that is found, whose User-Agent is missing or
  contains a bot signature (compared in lower case), or that arrives less than 5 seconds
  after the record's sent time, leaves \<open>open_count\<close> and \<open>unique_opens\<close> of every record
  and the contacts as they were, and is answered with the pixel. When the run has no
  fault, the record referenced has \<open>is_valid_open = false\<close> afterwards. (A bounced record
  reached by a premature request from a browser is not written: every bounce transition
  has already set its \<open>is_valid_open\<close> to false, which is the last hypothesis.)
\<close>

theorem C5_bot_or_premature_open_not_counted:
  assumes id: "query_id req = Some i" "i \<noteq> []"
    and row: "single_row (\<lambda>x. eh_id x = i) (email_history_tbl d) = Some r"
    and suppressed: "isBotUserAgent (user_agent req) \<or> (\<exists>t. sent_at r = Some t \<and> now - t < 5 * 1000)"
    and bounced: "truthy (bounce_type r) \<longrightarrow> is_valid_open r = Some False"
  shows "map open_count (email_history_tbl (fst (handler d now req flt))) = map open_count (email_history_tbl d)
       \<and> map unique_opens (email_history_tbl (fst (handler d now req flt))) = map unique_opens (email_history_tbl d)
       \<and> contacts_tbl (fst (handler d now req flt)) = contacts_tbl d
       \<and> (\<not> client_throws flt \<and> \<not> fetch_error flt \<and> \<not> update_error flt \<longrightarrow>
            single_row (\<lambda>x. eh_id x = i) (email_history_tbl (fst (handler d now req flt)))
              = Some (r\<lparr>is_valid_open := Some False\<rparr>))
       \<and> snd (handler d now req flt) = Response TRACKING_PIXEL PIXEL_HEADERS"
proof -
  let ?tbl = "email_history_tbl d"
  let ?tbl' = "email_history_tbl (fst (handler d now req flt))"
  let ?inv = "update_where (\<lambda>r. eh_id r = i) (\<lambda>r. r\<lparr>is_valid_open := Some False\<rparr>) ?tbl"
  have q: "truthy (query_id req)" "the (query_id req) = i"
    using id by (simp_all add: truthy_def)
  have soon: "now - or_zero (sent_at r) < 5000" if "\<not> isBotUserAgent (user_agent req)"
    using suppressed that by (auto simp: or_zero_def)
  have tbl: "?tbl' = ?tbl \<or> ?tbl' = ?inv"
  proof (cases "isBotUserAgent (user_agent req)")
    case True
    then show ?thesis by (simp add: handler_email_table q)
  next
    case False
    then show ?thesis using soon [OF False] by (simp add: handler_email_table q row)
  qed
  have inv_row: "single_row (\<lambda>x. eh_id x = i) ?inv = Some (r\<lparr>is_valid_open := Some False\<rparr>)"
    by (rule single_row_update_where [OF row]) simp
  have f1: "map open_count ?inv = map open_count ?tbl"
    by (rule map_update_where_field) simp
  have f2: "map unique_opens ?inv = map unique_opens ?tbl"
    by (rule map_update_where_field) simp
  have c1: "map open_count ?tbl' = map open_count ?tbl"
    using tbl f1 by (elim disjE) simp_all
  have c2: "map unique_opens ?tbl' = map unique_opens ?tbl"
    using tbl f2 by (elim disjE) simp_all
  have c3: "contacts_tbl (fst (handler d now req flt)) = contacts_tbl d"
  proof (cases "isBotUserAgent (user_agent req)")
    case True
    then show ?thesis by (simp add: handler_contacts)
  next
    case False
    then show ?thesis using soon [OF False] by (simp add: handler_contacts q row)
  qed
  have c4: "single_row (\<lambda>x. eh_id x = i) ?tbl' = Some (r\<lparr>is_valid_open := Some False\<rparr>)"
    if ok: "\<not> client_throws flt \<and> \<not> fetch_error flt \<and> \<not> update_error flt"
  proof (cases "isBotUserAgent (user_agent req)")
    case True
    then have "?tbl' = ?inv" using ok by (simp add: handler_email_table q)
    then show ?thesis using inv_row by simp
  next
    case False
    show ?thesis
    proof (cases "truthy (bounce_type r)")
      case True
      then have "?tbl' = ?tbl" using False ok by (simp add: handler_email_table q row)
      moreover have "r\<lparr>is_valid_open := Some False\<rparr> = r" using True bounced by simp
      ultimately show ?thesis using row by simp
    next
      case nb: False
      then have "?tbl' = ?inv" using False ok soon [OF False] by (simp add: handler_email_table q row)
      then show ?thesis using inv_row by simp
    qed
  qed
  show ?thesis using c1 c2 c3 c4 handler_response by blast
qed

theorem C5_bot_or_premature_open_not_counted_witness:
  "map open_count (email_history_tbl (fst (handler D0 1600000
       googlebot_request no_faults))) = [Some 0]
   \<and> map unique_opens (email_history_tbl (fst (handler D0 1600000
       googlebot_request no_faults))) = [Some 0]
   \<and> single_row (\<lambda>x. eh_id x = ''E1'') (email_history_tbl (fst (handler D0 1600000
       googlebot_request no_faults)))
       = Some (E1\<lparr>is_valid_open := Some False\<rparr>)
   \<and> map open_count (email_history_tbl (fst (handler D0 1002000
       (browser_request ''1.1.1.1'') no_faults))) = [Some 0]
   \<and> single_row (\<lambda>x. eh_id x = ''E1'') (email_history_tbl (fst (handler D0 1002000
       (browser_request ''1.1.1.1'') no_faults)))
       = Some (E1\<lparr>is_valid_open := Some False\<rparr>)"
proof -
  have row: "single_row (\<lambda>x. eh_id x = ''E1'') (email_history_tbl D0) = Some E1"
    by (simp add: single_row_def D0_def E1_def)
  have nb: "truthy (bounce_type E1) \<longrightarrow> is_valid_open E1 = Some False"
    by (simp add: E1_def truthy_def)
  have bot: "isBotUserAgent (user_agent (googlebot_request))
             \<or> (\<exists>t. sent_at E1 = Some t \<and> 1600000 - t < 5 * 1000)"
  proof -
    have "isBotUserAgent (user_agent googlebot_request)" by code_simp
    then show ?thesis by simp
  qed
  have soon: "isBotUserAgent (user_agent (browser_request ''1.1.1.1''))
             \<or> (\<exists>t. sent_at E1 = Some t \<and> 1002000 - t < 5 * 1000)"
    by (simp add: E1_def)
  have nf: "\<not> client_throws no_faults \<and> \<not> fetch_error no_faults \<and> \<not> update_error no_faults"
    by (simp add: no_faults_def)
  have tbl: "map open_count (email_history_tbl D0) = [Some 0]"
            "map unique_opens (email_history_tbl D0) = [Some 0]"
    by (simp_all add: D0_def E1_def)
  show ?thesis
    using C5_bot_or_premature_open_not_counted
            [of "googlebot_request" "''E1''" D0 E1
                1600000 no_faults, OF _ _ row bot nb]
          C5_bot_or_premature_open_not_counted
            [of "browser_request ''1.1.1.1''" "''E1''" D0 E1 1002000 no_faults, OF _ _ row soon nb]
          nf tbl
    by (simp add: browser_request_def googlebot_request_def)
qed

subsection \<open>Open tracking: qualifying opens\<close>

text \<open>
  The rule of the code for a qualifying open: the row found becomes
  \<open>open_update r now ip r\<close>, whose fields \<open>open_update_fields\<close> lists. The open is unique
  when it is the first, or the IP differs from \<open>first_open_ip\<close>, or \<open>opened_at\<close> is more
  than 300 seconds back; \<open>opened_at\<close> is written by the first open only.
\<close>

lemma qualifying_open_row:
  assumes "query_id req = Some i" and "i \<noteq> []"
    and "\<not> isBotUserAgent (user_agent req)"
    and row: "single_row (\<lambda>x. eh_id x = i) (email_history_tbl d) = Some r"
    and "\<not> truthy (bounce_type r)"
    and "\<not> now - or_zero (sent_at r) < 5 * 1000"
    and "\<not> client_throws flt" "\<not> fetch_error flt" "\<not> update_error flt"
  shows "single_row (\<lambda>x. eh_id x = i) (email_history_tbl (fst (handler d now req flt)))
           = Some (open_update r now (getClientIP req) r)"
proof -
  have "email_history_tbl (fst (handler d now req flt))
          = update_where (\<lambda>x. eh_id x = i) (open_update r now (getClientIP req)) (email_history_tbl d)"
    using assms by (simp add: handler_email_table truthy_def)
  moreover have "eh_id (open_update r now ip x) = eh_id x" for ip x
    by (simp add: open_update_def Let_def)
  ultimately show ?thesis using single_row_update_where [OF row] by simp
qed

lemma open_update_fields:
  "open_count (open_update r now ip r) = Some (or_zero (open_count r) + 1)"
  "unique_opens (open_update r now ip r) =
     (if or_zero (open_count r) = 0 \<or> first_open_ip r \<noteq> Some ip
         \<or> (\<exists>t. opened_at r = Some t \<and> now - t > 300 * 1000)
      then Some (or_zero (unique_opens r) + 1) else unique_opens r)"
  "status (open_update r now ip r) = ''opened''"
  "opened_at (open_update r now ip r) = (if or_zero (open_count r) = 0 then Some now else opened_at r)"
  "first_open_ip (open_update r now ip r) = (if or_zero (open_count r) = 0 then Some ip else first_open_ip r)"
  "bounce_type (open_update r now ip r) = bounce_type r"
  by (auto simp: open_update_def Let_def DEDUP_WINDOW_SECONDS_def split: option.splits)

text \<open>The scenario of the specification: opens at 10 s and 60 s from one IP, at 400 s from another.\<close>

lemma scenario_three_fetches:
  "map (\<lambda>r. (open_count r, unique_opens r, status r))
     (email_history_tbl (fst (handler D0 1010000 (browser_request ''1.1.1.1'') no_faults)))
     = [(Some 1, Some 1, ''opened'')]
   \<and> map (\<lambda>r. (open_count r, unique_opens r, status r))
     (email_history_tbl (fst (handler (fst (handler D0 1010000 (browser_request ''1.1.1.1'') no_faults))
        1060000 (browser_request ''1.1.1.1'') no_faults)))
     = [(Some 2, Some 1, ''opened'')]
   \<and> map (\<lambda>r. (open_count r, unique_opens r, status r))
     (email_history_tbl (fst (handler (fst (handler (fst (handler D0 1010000 (browser_request ''1.1.1.1'') no_faults))
        1060000 (browser_request ''1.1.1.1'') no_faults)) 1400000 (browser_request ''2.2.2.2'') no_faults)))
     = [(Some 3, Some 2, ''opened'')]"
  by code_simp

text \<open>
  C4 at its failing input. Three qualifying opens from the same IP, 10, 320 and 330 seconds
  after the send: the third comes 10 seconds after the previous open from that IP, inside
  the 300 second window, and is still counted unique, because the code measures the window
  from \<open>opened_at\<close>, the time of the first open.
\<close>

theorem C4_dedup_window_failing_input:
  "map (\<lambda>r. (open_count r, unique_opens r, first_open_ip r, opened_at r))
     (email_history_tbl (fst (handler (fst (handler (fst (handler D0 1010000 (browser_request ''1.1.1.1'') no_faults))
        1320000 (browser_request ''1.1.1.1'') no_faults)) 1330000 (browser_request ''1.1.1.1'') no_faults)))
     = [(Some 3, Some 3, Some ''1.1.1.1'', Some 1010000)]"
  by code_simp

subsection \<open>Token Provider\<close>

lemma token_result_cases:
  fixes a b c :: "string option"
  shows "snd (let tenantId = a; clientId = b; clientSecret = c
           in if \<not> truthy tenantId \<or> \<not> truthy clientId \<or> \<not> truthy clientSecret
              then ([], Inl (Error m))
              else let rq = token_request_of (the tenantId) (the clientId) (the clientSecret);
                       response = fetch rq
                   in if \<not> tok_ok response then ([rq], Inl (Error (f response)))
                      else ([rq], Inr (tok_access_token response)))
         = (if \<not> truthy a \<or> \<not> truthy b \<or> \<not> truthy c then Inl (Error m)
            else if \<not> tok_ok (fetch (token_request_of (the a) (the b) (the c)))
                 then Inl (Error (f (fetch (token_request_of (the a) (the b) (the c)))))
                 else Inr (tok_access_token (fetch (token_request_of (the a) (the b) (the c)))))"
  by (simp add: Let_def)

lemma token_requests_cases:
  fixes a b c :: "string option"
  shows "fst (let tenantId = a; clientId = b; clientSecret = c
           in if \<not> truthy tenantId \<or> \<not> truthy clientId \<or> \<not> truthy clientSecret
              then ([], Inl (Error m))
              else let rq = token_request_of (the tenantId) (the clientId) (the clientSecret);
                       response = fetch rq
                   in if \<not> tok_ok response then ([rq], Inl (Error (f response)))
                      else ([rq], Inr (tok_access_token response)))
         = (if \<not> truthy a \<or> \<not> truthy b \<or> \<not> truthy c then []
            else [token_request_of (the a) (the b) (the c)])"
  by (simp add: Let_def)

lemma truthy_or_else: "truthy (or_else x y) \<longleftrightarrow> truthy x \<or> truthy y"
  by (simp add: or_else_def)

lemma failed_message_differs:
  "''Failed to get access token: '' @ x \<noteq> ''Azure credentials not configured''"
  "''Failed to get access token: '' @ y \<noteq> EMAIL_CREDENTIALS_MESSAGE"
  by (simp_all add: EMAIL_CREDENTIALS_MESSAGE_def)

lemma getAccessToken_config_error:
  "snd (getAccessToken env fetch) = Inl (Error ''Azure credentials not configured'')
   \<longleftrightarrow> (\<not> truthy (env ''AZURE_EMAIL_TENANT_ID'') \<and> \<not> truthy (env ''AZURE_TENANT_ID''))
     \<or> (\<not> truthy (env ''AZURE_EMAIL_CLIENT_ID'') \<and> \<not> truthy (env ''AZURE_CLIENT_ID''))
     \<or> (\<not> truthy (env ''AZURE_EMAIL_CLIENT_SECRET'') \<and> \<not> truthy (env ''AZURE_CLIENT_SECRET''))"
  unfolding getAccessToken_def token_result_cases truthy_or_else
  using failed_message_differs(1) by (auto simp del: append.simps)

lemma getAccessToken_requests:
  "fst (getAccessToken env fetch) =
    (if (\<not> truthy (env ''AZURE_EMAIL_TENANT_ID'') \<and> \<not> truthy (env ''AZURE_TENANT_ID''))
        \<or> (\<not> truthy (env ''AZURE_EMAIL_CLIENT_ID'') \<and> \<not> truthy (env ''AZURE_CLIENT_ID''))
        \<or> (\<not> truthy (env ''AZURE_EMAIL_CLIENT_SECRET'') \<and> \<not> truthy (env ''AZURE_CLIENT_SECRET''))
     then []
     else [token_request_of
             (the (or_else (env ''AZURE_EMAIL_TENANT_ID'') (env ''AZURE_TENANT_ID'')))
             (the (or_else (env ''AZURE_EMAIL_CLIENT_ID'') (env ''AZURE_CLIENT_ID'')))
             (the (or_else (env ''AZURE_EMAIL_CLIENT_SECRET'') (env ''AZURE_CLIENT_SECRET'')))])"
  unfolding getAccessToken_def token_requests_cases truthy_or_else
  by (simp only: de_Morgan_disj)

lemma getAccessToken_send_config_error:
  "snd (getAccessToken_send env fetch) = Inl (Error EMAIL_CREDENTIALS_MESSAGE)
   \<longleftrightarrow> \<not> truthy (env ''AZURE_EMAIL_TENANT_ID'')
     \<or> \<not> truthy (env ''AZURE_EMAIL_CLIENT_ID'')
     \<or> \<not> truthy (env ''AZURE_EMAIL_CLIENT_SECRET'')"
  unfolding getAccessToken_send_def token_result_cases
  using failed_message_differs(2) by (auto simp del: append.simps)

lemma getAccessToken_send_requests:
  "fst (getAccessToken_send env fetch) =
    (if \<not> truthy (env ''AZURE_EMAIL_TENANT_ID'')
        \<or> \<not> truthy (env ''AZURE_EMAIL_CLIENT_ID'')
        \<or> \<not> truthy (env ''AZURE_EMAIL_CLIENT_SECRET'')
     then []
     else [token_request_of (the (env ''AZURE_EMAIL_TENANT_ID'')) (the (env ''AZURE_EMAIL_CLIENT_ID''))
             (the (env ''AZURE_EMAIL_CLIENT_SECRET''))])"
  unfolding getAccessToken_send_def token_requests_cases by (rule refl)

text \<open>
  C9 (amended). The token provider of the reconciliation services reads the email-specific
  variables with the generic ones as fallbacks, the email-specific one first
  (\<open>or_else\<close>). It fails with the configuration error exactly when, after the fallbacks,
  one of the three credentials is absent or empty, and then issues no request; otherwise it
  issues exactly one client-credentials request, built from the credentials chosen. The
  token provider of send-email reads the email-specific variables only: it fails with its
  configuration error exactly when one of these three is absent or empty, and issues the
  request otherwise.
\<close>

theorem C9_token_provider:
  "(snd (getAccessToken env fetch) = Inl (Error ''Azure credentials not configured'')
     \<longleftrightarrow> (\<not> truthy (env ''AZURE_EMAIL_TENANT_ID'') \<and> \<not> truthy (env ''AZURE_TENANT_ID''))
       \<or> (\<not> truthy (env ''AZURE_EMAIL_CLIENT_ID'') \<and> \<not> truthy (env ''AZURE_CLIENT_ID''))
       \<or> (\<not> truthy (env ''AZURE_EMAIL_CLIENT_SECRET'') \<and> \<not> truthy (env ''AZURE_CLIENT_SECRET'')))
   \<and> fst (getAccessToken env fetch) =
       (if (\<not> truthy (env ''AZURE_EMAIL_TENANT_ID'') \<and> \<not> truthy (env ''AZURE_TENANT_ID''))
           \<or> (\<not> truthy (env ''AZURE_EMAIL_CLIENT_ID'') \<and> \<not> truthy (env ''AZURE_CLIENT_ID''))
           \<or> (\<not> truthy (env ''AZURE_EMAIL_CLIENT_SECRET'') \<and> \<not> truthy (env ''AZURE_CLIENT_SECRET''))
        then []
        else [token_request_of
                (the (or_else (env ''AZURE_EMAIL_TENANT_ID'') (env ''AZURE_TENANT_ID'')))
                (the (or_else (env ''AZURE_EMAIL_CLIENT_ID'') (env ''AZURE_CLIENT_ID'')))
                (the (or_else (env ''AZURE_EMAIL_CLIENT_SECRET'') (env ''AZURE_CLIENT_SECRET'')))])
   \<and> (snd (getAccessToken_send env fetch) = Inl (Error EMAIL_CREDENTIALS_MESSAGE)
     \<longleftrightarrow> \<not> truthy (env ''AZURE_EMAIL_TENANT_ID'')
       \<or> \<not> truthy (env ''AZURE_EMAIL_CLIENT_ID'')
       \<or> \<not> truthy (env ''AZURE_EMAIL_CLIENT_SECRET''))
   \<and> fst (getAccessToken_send env fetch) =
       (if \<not> truthy (env ''AZURE_EMAIL_TENANT_ID'')
           \<or> \<not> truthy (env ''AZURE_EMAIL_CLIENT_ID'')
           \<or> \<not> truthy (env ''AZURE_EMAIL_CLIENT_SECRET'')
        then []
        else [token_request_of (the (env ''AZURE_EMAIL_TENANT_ID'')) (the (env ''AZURE_EMAIL_CLIENT_ID''))
                (the (env ''AZURE_EMAIL_CLIENT_SECRET''))])"
  by (intro conjI getAccessToken_config_error getAccessToken_requests
        getAccessToken_send_config_error getAccessToken_send_requests)

theorem C9_token_provider_witness:
  "fst (getAccessToken
         ((\<lambda>k. None)(''AZURE_EMAIL_TENANT_ID'' \<mapsto> ''mail-tenant'', ''AZURE_TENANT_ID'' \<mapsto> ''tenant'',
                     ''AZURE_CLIENT_ID'' \<mapsto> ''client'', ''AZURE_CLIENT_SECRET'' \<mapsto> ''secret''))
         (\<lambda>rq. \<lparr>tok_ok = True, tok_status = ''200'', tok_text = [], tok_access_token = Some ''tok''\<rparr>))
     = [token_request_of ''mail-tenant'' ''client'' ''secret'']
   \<and> snd (getAccessToken
         ((\<lambda>k. None)(''AZURE_EMAIL_TENANT_ID'' \<mapsto> ''mail-tenant'', ''AZURE_TENANT_ID'' \<mapsto> ''tenant'',
                     ''AZURE_CLIENT_ID'' \<mapsto> ''client'', ''AZURE_CLIENT_SECRET'' \<mapsto> ''secret''))
         (\<lambda>rq. \<lparr>tok_ok = True, tok_status = ''200'', tok_text = [], tok_access_token = Some ''tok''\<rparr>))
     \<noteq> Inl (Error ''Azure credentials not configured'')
   \<and> fst (getAccessToken_send
         ((\<lambda>k. None)(''AZURE_EMAIL_TENANT_ID'' \<mapsto> ''mail-tenant'', ''AZURE_TENANT_ID'' \<mapsto> ''tenant'',
                     ''AZURE_CLIENT_ID'' \<mapsto> ''client'', ''AZURE_CLIENT_SECRET'' \<mapsto> ''secret''))
         (\<lambda>rq. \<lparr>tok_ok = True, tok_status = ''200'', tok_text = [], tok_access_token = Some ''tok''\<rparr>))
     = []"
  using C9_token_provider
    [of "(\<lambda>k. None)(''AZURE_EMAIL_TENANT_ID'' \<mapsto> ''mail-tenant'', ''AZURE_TENANT_ID'' \<mapsto> ''tenant'',
                     ''AZURE_CLIENT_ID'' \<mapsto> ''client'', ''AZURE_CLIENT_SECRET'' \<mapsto> ''secret'')"
        "\<lambda>rq. \<lparr>tok_ok = True, tok_status = ''200'', tok_text = [], tok_access_token = Some ''tok''\<rparr>"]
  by (simp add: truthy_def or_else_def)

text \<open>
  The claim as stated fails on send-email: with the three generic variables set and no
  email-specific one, no credential is absent after the fallbacks, and yet the provider
  of send-email throws its configuration error.
\<close>

theorem C9_send_email_counterexample:
  "snd (getAccessToken_send
         ((\<lambda>k. None)(''AZURE_TENANT_ID'' \<mapsto> ''tenant'', ''AZURE_CLIENT_ID'' \<mapsto> ''client'',
                     ''AZURE_CLIENT_SECRET'' \<mapsto> ''secret''))
         (\<lambda>rq. \<lparr>tok_ok = True, tok_status = ''200'', tok_text = [], tok_access_token = Some ''tok''\<rparr>))
     = Inl (Error EMAIL_CREDENTIALS_MESSAGE)
   \<and> or_else (((\<lambda>k. None)(''AZURE_TENANT_ID'' \<mapsto> ''tenant'', ''AZURE_CLIENT_ID'' \<mapsto> ''client'',
                     ''AZURE_CLIENT_SECRET'' \<mapsto> ''secret'')) ''AZURE_EMAIL_TENANT_ID'')
              (((\<lambda>k. None)(''AZURE_TENANT_ID'' \<mapsto> ''tenant'', ''AZURE_CLIENT_ID'' \<mapsto> ''client'',
                     ''AZURE_CLIENT_SECRET'' \<mapsto> ''secret'')) ''AZURE_TENANT_ID'') = Some ''tenant''
   \<and> or_else (((\<lambda>k. None)(''AZURE_TENANT_ID'' \<mapsto> ''tenant'', ''AZURE_CLIENT_ID'' \<mapsto> ''client'',
                     ''AZURE_CLIENT_SECRET'' \<mapsto> ''secret'')) ''AZURE_EMAIL_CLIENT_ID'')
              (((\<lambda>k. None)(''AZURE_TENANT_ID'' \<mapsto> ''tenant'', ''AZURE_CLIENT_ID'' \<mapsto> ''client'',
                     ''AZURE_CLIENT_SECRET'' \<mapsto> ''secret'')) ''AZURE_CLIENT_ID'') = Some ''client''
   \<and> or_else (((\<lambda>k. None)(''AZURE_TENANT_ID'' \<mapsto> ''tenant'', ''AZURE_CLIENT_ID'' \<mapsto> ''client'',
                     ''AZURE_CLIENT_SECRET'' \<mapsto> ''secret'')) ''AZURE_EMAIL_CLIENT_SECRET'')
              (((\<lambda>k. None)(''AZURE_TENANT_ID'' \<mapsto> ''tenant'', ''AZURE_CLIENT_ID'' \<mapsto> ''client'',
                     ''AZURE_CLIENT_SECRET'' \<mapsto> ''secret'')) ''AZURE_CLIENT_SECRET'') = Some ''secret''"
  by (simp add: getAccessToken_send_def truthy_def or_else_def Let_def)

subsection \<open>NDR Parser\<close>

lemma first_match_None_iff:
  "first_match pts s = None \<longleftrightarrow> (\<forall>k < length pts. str_match s (pts ! k) = None)"
proof (induction pts)
  case Nil
  show ?case by simp
next
  case (Cons p pts)
  show ?case
  proof (cases "str_match s p")
    case None
    then show ?thesis using Cons by (auto simp: less_Suc_eq_0_disj)
  next
    case (Some m)
    then show ?thesis by auto
  qed
qed

lemma first_match_Some_iff:
  "first_match pts s = Some m \<longleftrightarrow>
     (\<exists>k < length pts. str_match s (pts ! k) = Some m \<and> (\<forall>j < k. str_match s (pts ! j) = None))"
proof (induction pts)
  case Nil
  show ?case by simp
next
  case (Cons p pts)
  show ?case
  proof (cases "str_match s p")
    case None
    have "(\<exists>k < length (p # pts). str_match s ((p # pts) ! k) = Some m
             \<and> (\<forall>j < k. str_match s ((p # pts) ! j) = None))
          \<longleftrightarrow> (\<exists>k < length pts. str_match s (pts ! k) = Some m
             \<and> (\<forall>j < k. str_match s (pts ! j) = None))"
      (is "?L \<longleftrightarrow> ?R")
    proof
      assume ?L
      then obtain k where k: "k < length (p # pts)" "str_match s ((p # pts) ! k) = Some m"
          "\<forall>j < k. str_match s ((p # pts) ! j) = None" by blast
      with None obtain k' where k': "k = Suc k'" by (cases k) auto
      have "\<forall>j < k'. str_match s (pts ! j) = None"
      proof (intro allI impI)
        fix j assume "j < k'"
        then have "Suc j < k" using k' by simp
        with k(3) have "str_match s ((p # pts) ! Suc j) = None" by blast
        then show "str_match s (pts ! j) = None" by simp
      qed
      with k k' show ?R by auto
    next
      assume ?R
      then obtain k where k: "k < length pts" "str_match s (pts ! k) = Some m"
          "\<forall>j < k. str_match s (pts ! j) = None" by blast
      have "\<forall>j < Suc k. str_match s ((p # pts) ! j) = None"
      proof (intro allI impI)
        fix j assume "j < Suc k"
        then show "str_match s ((p # pts) ! j) = None"
          using None k(3) by (cases j) auto
      qed
      with k show ?L by (intro exI [of _ "Suc k"]) simp
    qed
    then show ?thesis using None Cons by simp
  next
    case (Some m')
    have "(\<exists>k < length (p # pts). str_match s ((p # pts) ! k) = Some m
             \<and> (\<forall>j < k. str_match s ((p # pts) ! j) = None)) \<longleftrightarrow> m' = m"
      (is "?L \<longleftrightarrow> _")
    proof
      assume ?L
      then obtain k where k: "str_match s ((p # pts) ! k) = Some m"
          "\<forall>j < k. str_match s ((p # pts) ! j) = None" by blast
      have "k = 0"
      proof (rule ccontr)
        assume "k \<noteq> 0"
        then have "0 < k" by simp
        with k(2) have "str_match s ((p # pts) ! 0) = None" by blast
        with Some show False by simp
      qed
      with k(1) Some show "m' = m" by simp
    next
      assume "m' = m"
      with Some show ?L by (intro exI [of _ 0]) simp
    qed
    then show ?thesis using Some by simp
  qed
qed

lemma parse_recipient:
  "recipientEmail (parseNDRContent subj body)
     = map_option (\<lambda>m. toLowerCase (snd m)) (first_match emailPatterns (plainBody_of body))"
  by (simp add: parseNDRContent_def Let_def)

lemma emailPatterns_length: "length emailPatterns = 7"
  by (simp add: emailPatterns_def)

text \<open>
  On the text the patterns are given, which is the body after the strip of \<open>plainBody_of\<close>
  and not the body itself, the parser of process-bounce-checks tries its seven recipient
  patterns in the order of \<open>emailPatterns\<close>: the three phrasings of the provider, the
  \<^verbatim>\<open>To:\<close>/\<^verbatim>\<open>Recipient:\<close>/\<^verbatim>\<open>Address:\<close> header, "delivery to X failed", an address in angle
  brackets, any address. It returns the address, in lower case, that the first pattern
  with a match captures, and nothing when no pattern matches.
\<close>

lemma parser_first_match:
  "(recipientEmail (parseNDRContent subj body) = Some a \<longleftrightarrow>
      (\<exists>k < 7. \<exists>m. str_match (plainBody_of body) (emailPatterns ! k) = Some m
          \<and> a = toLowerCase (snd m)
          \<and> (\<forall>j < k. str_match (plainBody_of body) (emailPatterns ! j) = None)))
   \<and> (recipientEmail (parseNDRContent subj body) = None \<longleftrightarrow>
      (\<forall>k < 7. str_match (plainBody_of body) (emailPatterns ! k) = None))
   \<and> (\<forall>m. str_match (plainBody_of body) PAT_YOUR_MESSAGE_TO = Some m
        \<longrightarrow> recipientEmail (parseNDRContent subj body) = Some (toLowerCase (snd m)))
   \<and> emailPatterns = [PAT_YOUR_MESSAGE_TO, PAT_MESSAGE_TO, PAT_COULDNT_DELIVER_TO, PAT_TO_HEADER,
                       PAT_DELIVERY_TO_FAILED, PAT_ANGLE_BRACKETS, PAT_ANY_EMAIL]"
proof -
  have 1: "recipientEmail (parseNDRContent subj body) = Some a \<longleftrightarrow>
      (\<exists>k < 7. \<exists>m. str_match (plainBody_of body) (emailPatterns ! k) = Some m
          \<and> a = toLowerCase (snd m)
          \<and> (\<forall>j < k. str_match (plainBody_of body) (emailPatterns ! j) = None))"
    unfolding parse_recipient map_option_eq_Some first_match_Some_iff emailPatterns_length
    by blast
  have 2: "recipientEmail (parseNDRContent subj body) = None \<longleftrightarrow>
      (\<forall>k < 7. str_match (plainBody_of body) (emailPatterns ! k) = None)"
    unfolding parse_recipient by (simp add: first_match_None_iff emailPatterns_length)
  have 3: "recipientEmail (parseNDRContent subj body) = Some (toLowerCase (snd m))"
    if "str_match (plainBody_of body) PAT_YOUR_MESSAGE_TO = Some m" for m
  proof -
    have "first_match emailPatterns (plainBody_of body) = Some m"
      using that by (simp add: emailPatterns_def)
    then show ?thesis by (simp add: parse_recipient)
  qed
  show ?thesis using 1 2 3 emailPatterns_def by blast
qed

lemma parse_recipient_sync:
  "recipientEmail (parseNDRContent_sync subj body)
     = map_option (\<lambda>m. toLowerCase (snd m)) (first_match emailPatterns_sync body)"
  by (simp add: parseNDRContent_sync_def)

lemma fallback_first_matches:
  "str_match (plainBody_of BODY_FALLBACK_FIRST) PAT_YOUR_MESSAGE_TO
     = Some (''Your message to A@b.com couldn'' @ apos @ ''t be delivered'', ''A@b.com'')"
  "str_match (plainBody_of BODY_FALLBACK_FIRST) PAT_ANY_EMAIL = Some (''c@d.com'', ''c@d.com'')"
  by code_simp+

lemma parser_first_match_example:
  "str_match (plainBody_of BODY_FALLBACK_FIRST) PAT_YOUR_MESSAGE_TO
     = Some (''Your message to A@b.com couldn'' @ apos @ ''t be delivered'', ''A@b.com'')
   \<and> str_match (plainBody_of BODY_FALLBACK_FIRST) PAT_ANY_EMAIL = Some (''c@d.com'', ''c@d.com'')
   \<and> recipientEmail (parseNDRContent ''Undeliverable: Hi'' BODY_FALLBACK_FIRST) = Some ''a@b.com''"
proof -
  have "toLowerCase ''A@b.com'' = ''a@b.com''" by code_simp
  then show ?thesis
    using parser_first_match [of "''Undeliverable: Hi''" BODY_FALLBACK_FIRST] fallback_first_matches
    by simp
qed

text \<open>
  The copy of the parser in sync-email-bounces has another list, which starts with the
  \<^verbatim>\<open>To:\<close> header and has neither the phrase "Your message to X couldn't be delivered" nor a
  pattern for a bare address: for a body with that phrase and a \<^verbatim>\<open>To:\<close> header naming
  another address it returns the address of the header, where process-bounce-checks
  returns the address of the phrase.
\<close>

lemma sync_parser_header_first_example:
  "str_match BODY_WITH_TO_HEADER PAT_YOUR_MESSAGE_TO
     = Some (''Your message to a@b.com couldn'' @ apos @ ''t be delivered'', ''a@b.com'')
   \<and> recipientEmail (parseNDRContent ''Undeliverable: Hi'' BODY_WITH_TO_HEADER) = Some ''a@b.com''
   \<and> recipientEmail (parseNDRContent_sync ''Undeliverable: Hi'' BODY_WITH_TO_HEADER) = Some ''c@d.com''"
proof -
  have 1: "str_match BODY_WITH_TO_HEADER PAT_YOUR_MESSAGE_TO
     = Some (''Your message to a@b.com couldn'' @ apos @ ''t be delivered'', ''a@b.com'')"
    by code_simp
  have 2: "map_option (\<lambda>m. toLowerCase (snd m)) (first_match emailPatterns (plainBody_of BODY_WITH_TO_HEADER))
             = Some ''a@b.com''"
    by code_simp
  have 3: "map_option (\<lambda>m. toLowerCase (snd m)) (first_match emailPatterns_sync BODY_WITH_TO_HEADER)
             = Some ''c@d.com''"
    by code_simp
  show ?thesis using 1 2 3 by (simp add: parse_recipient parse_recipient_sync)
qed

text \<open>
  C3 at its failing input. The body
  \<^verbatim>\<open>Your message to <a@b.com> couldn't be delivered. Contact c@d.com\<close> matches the provider's
  phrase, which captures \<^verbatim>\<open>a@b.com\<close> (the pattern allows the angle brackets), and holds
  another address further on. The parser of process-bounce-checks returns \<^verbatim>\<open>c@d.com\<close>:
  before it tries any pattern it replaces every stretch from \<^verbatim>\<open><\<close> to \<^verbatim>\<open>>\<close> by a space,
  the recipient with it, so that in what is left the phrase has no address and only the
  last pattern, any address, matches. The copy of the parser in sync-email-bounces, which
  does not strip, returns \<^verbatim>\<open>a@b.com\<close> on this body.
\<close>

theorem C3_angle_bracket_address_failing_input:
  "str_match BODY_ANGLE_BRACKETS PAT_YOUR_MESSAGE_TO
     = Some (''Your message to <a@b.com> couldn'' @ apos @ ''t be delivered'', ''a@b.com'')
   \<and> plainBody_of BODY_ANGLE_BRACKETS
     = ''Your message to couldn'' @ apos @ ''t be delivered. Contact c@d.com''
   \<and> recipientEmail (parseNDRContent ''Undeliverable: Hi'' BODY_ANGLE_BRACKETS) = Some ''c@d.com''
   \<and> recipientEmail (parseNDRContent_sync ''Undeliverable: Hi'' BODY_ANGLE_BRACKETS) = Some ''a@b.com''"
proof -
  have 1: "str_match BODY_ANGLE_BRACKETS PAT_YOUR_MESSAGE_TO
     = Some (''Your message to <a@b.com> couldn'' @ apos @ ''t be delivered'', ''a@b.com'')"
    by code_simp
  have 2: "plainBody_of BODY_ANGLE_BRACKETS
     = ''Your message to couldn'' @ apos @ ''t be delivered. Contact c@d.com''"
    by code_simp
  have 3: "map_option (\<lambda>m. toLowerCase (snd m)) (first_match emailPatterns (plainBody_of BODY_ANGLE_BRACKETS))
             = Some ''c@d.com''"
    by code_simp
  have 4: "map_option (\<lambda>m. toLowerCase (snd m)) (first_match emailPatterns_sync BODY_ANGLE_BRACKETS)
             = Some ''a@b.com''"
    by code_simp
  show ?thesis using 1 2 3 4 by (simp add: parse_recipient parse_recipient_sync)
qed

text \<open>The scenario of the specification.\<close>

lemma ndr_scenario:
  "recipientEmail (parseNDRContent ''Undeliverable: Hello'' BODY_SCENARIO) = Some ''jane@acme.com''
   \<and> reason (parseNDRContent ''Undeliverable: Hello'' BODY_SCENARIO)
       = Some (''jane wasn'' @ apos @ ''t found at acme.com'')
   \<and> originalSubject (parseNDRContent ''Undeliverable: Hello'' BODY_SCENARIO) = Some ''Hello''"
  by code_simp

subsection \<open>The loops of the reconciliation services\<close>

text \<open>
  Each service changes \<^verbatim>\<open>email_history\<close> only by updates of the rows with one id: the
  bounce services by \<open>mark_bounced\<close>, on the id of a row that was not bounced when the
  service read it; process-email-replies by \<open>reply_update\<close>, on the id of such a row. A
  property of the table that these updates keep therefore holds after the run.
\<close>

lemma foldl_invariant:
  assumes "P s" and "\<And>s x. x \<in> set xs \<Longrightarrow> P s \<Longrightarrow> P (f s x)"
  shows "P (foldl f s xs)"
  using assms by (induction xs arbitrary: s) simp_all

lemma group_add_values:
  "(\<Union>e \<in> set (group_add k v m). set (snd e)) = insert v (\<Union>e \<in> set m. set (snd e))"
proof (induction k v m rule: group_add.induct)
  case (1 k v)
  show ?case by simp
next
  case (2 k v k' vs rest)
  show ?case
  proof (cases "k = k'")
    case True
    then show ?thesis by simp
  next
    case False
    then show ?thesis using 2 by (simp add: Un_insert_right)
  qed
qed

lemma group_by_values_aux:
  "(\<Union>e \<in> set (foldl (\<lambda>m x. group_add (key x) x m) m0 xs). set (snd e))
     = (\<Union>e \<in> set m0. set (snd e)) \<union> set xs"
  by (induction xs arbitrary: m0) (simp_all add: group_add_values)

lemma group_by_values:
  assumes "e \<in> set (group_by key xs)" and "x \<in> set (snd e)"
  shows "x \<in> set xs"
proof -
  have "x \<in> (\<Union>e \<in> set (group_by key xs). set (snd e))"
    using assms by blast
  then show ?thesis
    unfolding group_by_def group_by_values_aux by simp
qed

lemma list_all2_update_where:
  assumes "list_all2 Q xs ys"
    and "\<And>x y. x \<in> set xs \<Longrightarrow> Q x y \<Longrightarrow> P y \<Longrightarrow> Q x (f y)"
  shows "list_all2 Q xs (update_where P f ys)"
  using assms by (induction xs ys rule: list_all2_induct) (simp_all add: update_where_def)


text \<open>The pending pass.\<close>

lemma pending_query_live:
  assumes "jc \<in> set (pendingChecks_query d now)" and "\<not> already_done jc"
  shows "\<exists>i. email_history_id (fst jc) = Some i \<and> i \<in> live_ids (email_history_tbl d)"
proof -
  from assms(1) obtain c where jc: "jc = (c, case email_history_id c of None \<Rightarrow> None
      | Some i \<Rightarrow> find (\<lambda>r. eh_id r = i) (email_history_tbl d))"
    by (auto simp: pendingChecks_query_def)
  from assms(2) jc obtain i e where i: "email_history_id c = Some i"
      and e: "find (\<lambda>r. eh_id r = i) (email_history_tbl d) = Some e" and s: "status e \<noteq> ''bounced''"
    by (auto simp: already_done_def split: option.splits)
  from e have "e \<in> set (email_history_tbl d)" "eh_id e = i"
    by (auto simp: find_Some_iff)
  with s have "i \<in> live_ids (email_history_tbl d)"
    by (auto simp: live_ids_def)
  with i jc show ?thesis by simp
qed

lemma process_pending_check_emails:
  assumes "G (email_history_tbl (pp_db st))"
    and "email_history_id (fst jc) = Some i"
    and "\<And>n t. G t \<Longrightarrow> G (update_where (\<lambda>r. eh_id r = i) (ndr_mark n now) t)"
  shows "G (email_history_tbl (pp_db (process_pending_check w now ndrs st jc)))"
  using assms
  by (simp add: process_pending_check_def Let_def split: option.splits)

lemma pending_pass_emails_induct:
  assumes init: "G (email_history_tbl d)"
    and step: "\<And>X n t. X \<in> live_ids (email_history_tbl d) \<Longrightarrow> G t
                 \<Longrightarrow> G (update_where (\<lambda>r. eh_id r = X) (ndr_mark n now) t)"
  shows "G (email_history_tbl (pp_db (pending_pass_run w now d)))"
proof -
  let ?live = "filter (\<lambda>jc. \<not> already_done jc) (pendingChecks_query d now)"
  let ?I = "\<lambda>st. G (email_history_tbl (pp_db st))"
  have check: "?I (process_pending_check w now ndrs st jc)"
    if "jc \<in> set ?live" "?I st" for ndrs st jc
  proof -
    from that(1) obtain i where "email_history_id (fst jc) = Some i"
        "i \<in> live_ids (email_history_tbl d)"
      using pending_query_live [of jc d now] by auto
    then show ?thesis
      using process_pending_check_emails [of G st jc i now w ndrs] that(2) step by blast
  qed
  have sender: "?I (process_pending_sender w now st entry)"
    if "entry \<in> set (group_by (\<lambda>jc. pbc_sender_email (fst jc)) ?live)" "?I st" for st entry
  proof -
    have "?I (foldl (process_pending_check w now ndrs) st1 (snd entry))" if "?I st1" for st1 ndrs
      by (rule foldl_invariant [where P = ?I, OF that])
         (use check group_by_values [OF \<open>entry \<in> _\<close>] in blast)
    then show ?thesis
      using that(2) by (simp add: process_pending_sender_def Let_def)
  qed
  show ?thesis
    unfolding pending_pass_run_def Let_def
    by (rule foldl_invariant [where P = ?I]) (use init sender in simp_all)
qed

text \<open>The general sweep, and the two passes together.\<close>

lemma recentEmails_live:
  assumes "e \<in> set (recentEmails_query d since)"
  shows "eh_id e \<in> live_ids (email_history_tbl d)"
proof -
  from assms have "e \<in> set (email_history_tbl d) \<and> status e \<noteq> ''bounced''"
    by (auto simp: recentEmails_query_def dest!: in_set_takeD)
  then show ?thesis by (auto simp: live_ids_def)
qed

lemma sweep_email_emails:
  assumes "G (email_history_tbl (fst st))"
    and "\<And>n t. G t \<Longrightarrow> G (update_where (\<lambda>r. eh_id r = eh_id email) (ndr_mark n now) t)"
  shows "G (email_history_tbl (fst (sweep_email w now ndrs st email)))"
  using assms by (simp add: sweep_email_def split: option.splits)

lemma general_sweep_emails_induct:
  assumes init: "G (email_history_tbl d)"
    and step: "\<And>X n t. X \<in> live_ids (email_history_tbl d) \<Longrightarrow> G t
                 \<Longrightarrow> G (update_where (\<lambda>r. eh_id r = X) (ndr_mark n now) t)"
  shows "G (email_history_tbl (fst (general_sweep w now done d)))"
proof -
  let ?recent = "recentEmails_query d (now - 72 * 60 * 60 * 1000)"
  let ?I = "\<lambda>st. G (email_history_tbl (fst st))"
  have email: "?I (sweep_email w now ndrs st e)" if "e \<in> set ?recent" "?I st" for ndrs st e
    using sweep_email_emails [of G st e now w ndrs] that step recentEmails_live by blast
  have sender: "?I (sweep_sender w now done st entry)"
    if "entry \<in> set (group_by sender_email ?recent)" "?I st" for st entry
  proof -
    have "?I (foldl (sweep_email w now ndrs) st (snd entry))" for ndrs
      by (rule foldl_invariant [where P = ?I, OF that(2)])
         (use email group_by_values [OF that(1)] in blast)
    then show ?thesis
      using that(2) by (simp add: sweep_sender_def)
  qed
  show ?thesis
    unfolding general_sweep_def
    by (rule foldl_invariant [where P = ?I]) (use init sender in simp_all)
qed

lemma process_bounce_checks_emails_induct:
  assumes init: "G (email_history_tbl d)"
    and step': "\<And>X rsn at t t0. G t0 \<Longrightarrow> X \<in> live_ids t0 \<Longrightarrow> G t
                 \<Longrightarrow> G (update_where (\<lambda>r. eh_id r = X) (mark_bounced rsn at) t)"
  shows "G (email_history_tbl (fst (process_bounce_checks w now method d)))"
proof -
  have step: "G (update_where (\<lambda>r. eh_id r = X) (ndr_mark n now) t)"
    if "G t0" "X \<in> live_ids t0" "G t" for X n t t0
    unfolding ndr_mark_def using that by (rule step')
  let ?st = "pending_pass_run w now d"
  let ?d1 = "(pp_db ?st)\<lparr>pending_tbl := mark_checked ?st (pending_tbl (pp_db ?st))\<rparr>"
  have p: "G (email_history_tbl (pp_db ?st))"
  proof (rule pending_pass_emails_induct [of G d now w])
    show "G (email_history_tbl d)" by (rule init)
  next
    fix X n t
    assume "X \<in> live_ids (email_history_tbl d)" "G t"
    then show "G (update_where (\<lambda>r. eh_id r = X) (ndr_mark n now) t)"
      by (rule step [OF init])
  qed
  then have p1: "G (email_history_tbl ?d1)" by simp
  have s: "G (email_history_tbl (fst (general_sweep w now (processedSenders ?st) ?d1)))"
  proof (rule general_sweep_emails_induct [of G ?d1 now w])
    show "G (email_history_tbl ?d1)" by (rule p1)
  next
    fix X n t
    assume "X \<in> live_ids (email_history_tbl ?d1)" "G t"
    then show "G (update_where (\<lambda>r. eh_id r = X) (ndr_mark n now) t)"
      by (rule step [OF p1])
  qed
  show ?thesis
    using init s
    by (simp add: process_bounce_checks_def Let_def split: sum.splits js_error.splits)
qed

text \<open>sync-email-bounces.\<close>

lemma sync_matching_live:
  assumes "e \<in> set (sync_matching_emails d now sh sdr rcp os)"
  shows "eh_id e \<in> live_ids (email_history_tbl d)"
proof -
  from assms have "e \<in> set (email_history_tbl d) \<and> status e \<noteq> ''bounced''"
    by (auto simp: sync_matching_emails_def dest!: in_set_takeD)
  then show ?thesis by (auto simp: live_ids_def)
qed

lemma sync_bounce_email_emails:
  assumes "G (email_history_tbl (fst st))"
    and "\<And>t. G t \<Longrightarrow> G (update_where (\<lambda>r. eh_id r = eh_id email) (mark_bounced rsn at) t)"
  shows "G (email_history_tbl (fst (sync_bounce_email rsn at rcp st email)))"
  using assms by (simp add: sync_bounce_email_def Let_def split: option.splits)

lemma sync_emails_induct:
  assumes init: "G (email_history_tbl d)"
    and step: "\<And>X rsn at t t0. G t0 \<Longrightarrow> X \<in> live_ids t0 \<Longrightarrow> G t
                 \<Longrightarrow> G (update_where (\<lambda>r. eh_id r = X) (mark_bounced rsn at) t)"
  shows "G (email_history_tbl (fst (sync_email_bounces w now req d)))"
proof -
  let ?I = "\<lambda>st :: db \<times> nat \<times> string list. G (email_history_tbl (fst st))"
  have ndr: "?I (sync_ndr now sh sender st m)" if "?I st" for sh sender st m
  proof (cases "truthy (recipientEmail (parseNDRContent_sync (or_empty (gm_subject m)) (or_empty (gm_body_content m))))")
    case False
    then show ?thesis using that by (simp add: sync_ndr_def Let_def)
  next
    case True
    let ?p = "parseNDRContent_sync (or_empty (gm_subject m)) (or_empty (gm_body_content m))"
    let ?es = "sync_matching_emails (fst st) now sh sender (the (recipientEmail ?p)) (originalSubject ?p)"
    have "?I (foldl (sync_bounce_email rsn at rcp) st ?es)" for rsn at rcp
    proof (rule foldl_invariant [where P = ?I, OF that])
      fix s x assume x: "x \<in> set ?es" and s: "?I s"
      have "eh_id x \<in> live_ids (email_history_tbl (fst st))"
        using x by (rule sync_matching_live)
      then show "?I (sync_bounce_email rsn at rcp s x)"
        using sync_bounce_email_emails [of G s x rsn at rcp] s step [OF that] by blast
    qed
    then show ?thesis using True by (simp add: sync_ndr_def Let_def)
  qed
  have sender: "?I (sync_sender w now sh st sender)" if "?I st" for sh st sender
  proof (cases "ndr_search w sender")
    case None
    then show ?thesis using that by (simp add: sync_sender_def)
  next
    case (Some msgs)
    have "?I (foldl (sync_ndr now sh sender) st msgs)"
      by (rule foldl_invariant [where P = ?I, OF that]) (rule ndr)
    then show ?thesis using Some by (simp add: sync_sender_def)
  qed
  have all: "?I (foldl (sync_sender w now sh) (d, 0, []) senders)" for sh senders
    by (rule foldl_invariant [where P = ?I]) (use init sender in simp_all)
  have one: "?I (sync_sender w now sh (d, 0, []) x)" for sh x
    using sender [of "(d, 0, [])"] init by simp
  show ?thesis
    using init all one
    by (simp add: sync_email_bounces_def Let_def split: sum.splits js_error.splits)
qed

text \<open>process-email-replies.\<close>

lemma messageIdToEmail_range:
  assumes "messageIdToEmail emails k = Some e"
  shows "e \<in> set emails"
proof -
  let ?P = "\<lambda>m. \<forall>k e. m k = Some e \<longrightarrow> e \<in> set emails"
  have "?P (messageIdToEmail emails)"
    unfolding messageIdToEmail_def
    by (rule foldl_invariant [where P = ?P]) auto
  then show ?thesis using assms by blast
qed

lemma sentEmails_live:
  assumes "e \<in> set (sentEmails_query d since)"
  shows "e \<in> set (email_history_tbl d) \<and> status e \<noteq> ''bounced''"
  using assms by (auto simp: sentEmails_query_def)

lemma process_reply_emails:
  assumes "G (email_history_tbl (fst st))"
    and "\<And>k e rc t. idmap k = Some e \<Longrightarrow> G t
            \<Longrightarrow> G (update_where (\<lambda>r. eh_id r = eh_id e) (reply_update e rc) t)"
  shows "G (email_history_tbl (fst (process_reply w idmap st reply)))"
  using assms
  by (simp add: process_reply_def Let_def split: option.splits)

lemma process_email_replies_emails_induct:
  assumes init: "G (email_history_tbl d)"
    and step: "\<And>e rc t. e \<in> set (email_history_tbl d) \<Longrightarrow> status e \<noteq> ''bounced'' \<Longrightarrow> G t
                 \<Longrightarrow> G (update_where (\<lambda>r. eh_id r = eh_id e) (reply_update e rc) t)"
  shows "G (email_history_tbl (fst (process_email_replies w now method d)))"
proof -
  let ?sent = "sentEmails_query d (now - 7 * 24 * 60 * 60 * 1000)"
  let ?I = "\<lambda>st :: db \<times> nat \<times> string list. G (email_history_tbl (fst st))"
  have sender: "?I (process_reply_sender w st entry)"
    if "entry \<in> set (group_by sender_email ?sent)" "?I st" for st entry
  proof -
    have m: "e \<in> set (email_history_tbl d) \<and> status e \<noteq> ''bounced''"
      if "messageIdToEmail (snd entry) k = Some e" for k e
      using messageIdToEmail_range [OF that] group_by_values [OF \<open>entry \<in> _\<close>] sentEmails_live
      by blast
    have "?I (foldl (process_reply w (messageIdToEmail (snd entry))) st rs)" for rs
    proof (rule foldl_invariant [where P = ?I, OF that(2)])
      fix s x assume "?I s"
      then show "?I (process_reply w (messageIdToEmail (snd entry)) s x)"
        using process_reply_emails [of G s "messageIdToEmail (snd entry)" w x] m step by blast
    qed
    then show ?thesis by (simp add: process_reply_sender_def)
  qed
  have all: "?I (foldl (process_reply_sender w) (d, 0, []) (group_by sender_email ?sent))"
    by (rule foldl_invariant [where P = ?I]) (use init sender in simp_all)
  show ?thesis
    using init all
    by (simp add: process_email_replies_def Let_def split: sum.splits js_error.splits)
qed

subsection \<open>What each update does to a row\<close>

lemma mark_bounced_fields:
  "status (mark_bounced rsn at r) = ''bounced''"
  "bounce_type (mark_bounced rsn at r) = Some ''hard''"
  "open_count (mark_bounced rsn at r) = Some 0"
  "unique_opens (mark_bounced rsn at r) = Some 0"
  "opened_at (mark_bounced rsn at r) = None"
  "is_valid_open (mark_bounced rsn at r) = Some False"
  "eh_id (mark_bounced rsn at r) = eh_id r"
  by (simp_all add: mark_bounced_def)


lemma mark_bounced_bounced_record: "bounced_record (mark_bounced rsn at r)"
  by (simp add: bounced_record_def mark_bounced_fields truthy_def)

lemma reply_update_fields:
  "open_count (reply_update e rc r) = open_count r"
  "unique_opens (reply_update e rc r) = unique_opens r"
  "opened_at (reply_update e rc r) = opened_at r"
  "bounce_type (reply_update e rc r) = bounce_type r"
  "eh_id (reply_update e rc r) = eh_id r"
  by (simp_all add: reply_update_def Let_def)


lemma open_update_other_fields:
  "bounce_type (open_update e now ip r) = bounce_type r"
  "eh_id (open_update e now ip r) = eh_id r"
  by (simp_all add: open_update_def Let_def)



subsection \<open>The counter invariant\<close>


subsection \<open>Runs on the example data\<close>

lemma first_open_run:
  "fst (handler D0 1010000 (browser_request ''1.1.1.1'') no_faults)
     = \<lparr>email_history_tbl = [E1_opened], contacts_tbl = [K1_credited],
         notifications_tbl =
           [\<lparr>user_id = ''U1'', message = ''Jane opened your email: '' @ [CHR 0x22] @ ''Hello'' @ [CHR 0x22],
              notification_type = ''email_opened'', n_status = ''unread'', n_lead_id = None\<rparr>],
         pending_tbl = [], replies_tbl = []\<rparr>"
  by code_simp

lemma bounce_run:
  "process_bounce_checks (inbox_world [NDR1]) 1060000 ''POST'' D1
     = (D2\<lparr>notifications_tbl := [bounce_notification ''U1'' ''jane@acme.com'']\<rparr>, Summary 1 1 0)"
  by code_simp

lemma bounce_run_again:
  "process_bounce_checks (inbox_world [NDR1]) 1360000 ''POST''
      (D2\<lparr>notifications_tbl := [bounce_notification ''U1'' ''jane@acme.com'']\<rparr>)
     = (D2\<lparr>notifications_tbl := [bounce_notification ''U1'' ''jane@acme.com'']\<rparr>, Summary 0 0 0)"
  by code_simp

lemma sync_run:
  "sync_email_bounces (inbox_world [NDR1]) 1060000 sync_all (D1\<lparr>contacts_tbl := [K1_engaged]\<rparr>)
     = (D1\<lparr>email_history_tbl := [E1_bounced],
           contacts_tbl := [\<lparr>c_id = ''K1'', email_opens = Some 2, engagement_score = Some 15\<rparr>]\<rparr>,
        SyncSummary 1 [''jane@acme.com''])"
  by code_simp

lemma sync_run_again:
  "sync_email_bounces (inbox_world [NDR1]) 1360000 sync_all
      (D1\<lparr>email_history_tbl := [E1_bounced],
          contacts_tbl := [\<lparr>c_id = ''K1'', email_opens = Some 2, engagement_score = Some 15\<rparr>]\<rparr>)
     = (D1\<lparr>email_history_tbl := [E1_bounced],
           contacts_tbl := [\<lparr>c_id = ''K1'', email_opens = Some 2, engagement_score = Some 15\<rparr>]\<rparr>,
        NothingToCheck)"
  by code_simp

subsection \<open>The counter invariant: the claim\<close>

text \<open>
  A run of the handler that no other run writes into is the handler on one store.
\<close>

lemma handler_stale_same: "handler_stale d d now req flt = handler d now req flt"
  by (simp add: handler_stale_def handler_try_stale_def handler_def handler_try_def)




subsection \<open>Bounce transitions are hard bounces\<close>

lemma mark_bounced_twice:
  "mark_bounced rsn at (mark_bounced rsn' at' r) = mark_bounced rsn at r"
  by (simp add: mark_bounced_def)

lemma list_all2_same: "(\<And>x. Q x x) \<Longrightarrow> list_all2 Q xs xs"
  by (simp add: list_all2_same)

lemma bounce_relation_step:
  assumes "list_all2 (\<lambda>x y. y = x \<or> (\<exists>rsn at. y = mark_bounced rsn at x)) t0 t"
  shows "list_all2 (\<lambda>x y. y = x \<or> (\<exists>rsn at. y = mark_bounced rsn at x)) t0
           (update_where P (mark_bounced rsn at) t)"
  using assms
proof (rule list_all2_update_where)
  fix x y assume "y = x \<or> (\<exists>rsn at. y = mark_bounced rsn at x)"
  then show "mark_bounced rsn at y = x \<or> (\<exists>rsn' at'. mark_bounced rsn at y = mark_bounced rsn' at' x)"
    using mark_bounced_twice by blast
qed

lemma unchanged_bounce_type_step:
  assumes "list_all2 (\<lambda>x y. bounce_type y = bounce_type x) t0 t"
    and "\<And>y. bounce_type (f y) = bounce_type y"
  shows "list_all2 (\<lambda>x y. bounce_type y = bounce_type x) t0 (update_where P f t)"
  using assms(1) by (rule list_all2_update_where) (simp add: assms(2))

lemma handler_bounce_type:
  "list_all2 (\<lambda>x y. bounce_type y = bounce_type x) (email_history_tbl d)
     (email_history_tbl (fst (handler d now req flt)))"
proof -
  have r: "list_all2 (\<lambda>x y. bounce_type y = bounce_type x) (email_history_tbl d) (email_history_tbl d)"
    by (simp add: list_all2_same)
  have a: "list_all2 (\<lambda>x y. bounce_type y = bounce_type x) (email_history_tbl d)
             (update_where P (\<lambda>r. r\<lparr>is_valid_open := Some False\<rparr>) (email_history_tbl d))" for P
    using r by (rule unchanged_bounce_type_step) simp
  have b: "list_all2 (\<lambda>x y. bounce_type y = bounce_type x) (email_history_tbl d)
             (update_where P (open_update e now ip) (email_history_tbl d))" for P e ip
    using r by (rule unchanged_bounce_type_step) (simp add: open_update_other_fields)
  show ?thesis
    unfolding handler_email_table using r a b by (simp split: option.splits)
qed

text \<open>
  C10. Every bounce transition writes \<open>bounce_type = 'hard'\<close>. After the pending pass, the
  general sweep, process-bounce-checks or sync-email-bounces every row is as it was or is
  its bounce transition (\<open>mark_bounced\<close>, which writes 'hard'); the open tracking handler
  and process-email-replies leave \<open>bounce_type\<close> of every row as it was. So no operation
  writes 'soft'.
\<close>

theorem C10_bounce_transitions_are_hard:
  "bounce_type (mark_bounced rsn at r) = Some ''hard''
   \<and> list_all2 (\<lambda>x y. y = x \<or> (\<exists>rsn at. y = mark_bounced rsn at x)) (email_history_tbl d)
       (email_history_tbl (pp_db (pending_pass_run w now d)))
   \<and> list_all2 (\<lambda>x y. y = x \<or> (\<exists>rsn at. y = mark_bounced rsn at x)) (email_history_tbl d)
       (email_history_tbl (fst (general_sweep w now senders d)))
   \<and> list_all2 (\<lambda>x y. y = x \<or> (\<exists>rsn at. y = mark_bounced rsn at x)) (email_history_tbl d)
       (email_history_tbl (fst (process_bounce_checks w now http_method d)))
   \<and> list_all2 (\<lambda>x y. y = x \<or> (\<exists>rsn at. y = mark_bounced rsn at x)) (email_history_tbl d)
       (email_history_tbl (fst (sync_email_bounces w now sreq d)))
   \<and> list_all2 (\<lambda>x y. bounce_type y = bounce_type x) (email_history_tbl d)
       (email_history_tbl (fst (handler d now req flt)))
   \<and> list_all2 (\<lambda>x y. bounce_type y = bounce_type x) (email_history_tbl d)
       (email_history_tbl (fst (process_email_replies w now http_method d)))"
proof -
  let ?Q = "\<lambda>x y. y = x \<or> (\<exists>rsn at. y = mark_bounced rsn at x)"
  let ?G = "\<lambda>t. list_all2 ?Q (email_history_tbl d) t"
  let ?B = "\<lambda>t. list_all2 (\<lambda>x y. bounce_type y = bounce_type x) (email_history_tbl d) t"
  have init: "?G (email_history_tbl d)" by (simp add: list_all2_same)
  have initB: "?B (email_history_tbl d)" by (simp add: list_all2_same)
  have mark: "?G (update_where P (mark_bounced rsn at) t)" if "?G t" for P rsn at t
    using that by (rule bounce_relation_step)
  have ndr: "?G (update_where P (ndr_mark n now) t)" if "?G t" for P n t
    unfolding ndr_mark_def using that by (rule mark)
  have reply: "?B (update_where P (reply_update e rc) t)" if "?B t" for P e rc t
    using that by (rule unchanged_bounce_type_step) (simp add: reply_update_fields)
  have 1: "?G (email_history_tbl (pp_db (pending_pass_run w now d)))"
    by (rule pending_pass_emails_induct [where G = ?G, OF init]) (rule ndr)
  have 2: "?G (email_history_tbl (fst (general_sweep w now senders d)))"
    by (rule general_sweep_emails_induct [where G = ?G, OF init]) (rule ndr)
  have 3: "?G (email_history_tbl (fst (process_bounce_checks w now http_method d)))"
    by (rule process_bounce_checks_emails_induct [where G = ?G, OF init]) (rule mark)
  have 4: "?G (email_history_tbl (fst (sync_email_bounces w now sreq d)))"
    by (rule sync_emails_induct [where G = ?G, OF init]) (rule mark)
  have 5: "?B (email_history_tbl (fst (process_email_replies w now http_method d)))"
    by (rule process_email_replies_emails_induct [where G = ?B, OF initB]) (rule reply)
  show ?thesis
    using 1 2 3 4 5 handler_bounce_type [of d now req flt]
    by (simp add: mark_bounced_fields)
qed

theorem C10_bounce_transitions_are_hard_witness:
  "map bounce_type (email_history_tbl (fst (process_bounce_checks (inbox_world [NDR1]) 1060000 ''POST'' D1)))
     = [Some ''hard'']
   \<and> map bounce_type (email_history_tbl (fst (sync_email_bounces (inbox_world [NDR1]) 1060000 sync_all
         (D1\<lparr>contacts_tbl := [K1_engaged]\<rparr>))))
     = [Some ''hard'']"
proof -
  have a: "status y = ''bounced'' \<Longrightarrow> y = E1_opened \<or> (\<exists>rsn at. y = mark_bounced rsn at E1_opened)
             \<Longrightarrow> bounce_type y = Some ''hard''" for y
    by (auto simp: mark_bounced_fields E1_opened_def E1_def)
  have b: "map status (email_history_tbl (fst (process_bounce_checks (inbox_world [NDR1]) 1060000 ''POST'' D1)))
             = [''bounced'']"
    by (simp add: bounce_run D2_def E1_bounced_def mark_bounced_fields)
  have c: "map status (email_history_tbl (fst (sync_email_bounces (inbox_world [NDR1]) 1060000 sync_all
             (D1\<lparr>contacts_tbl := [K1_engaged]\<rparr>))))
             = [''bounced'']"
    by (simp add: sync_run E1_bounced_def mark_bounced_fields)
  have tbl: "email_history_tbl D1 = [E1_opened]" by (simp add: D1_def)
  show ?thesis
    using C10_bounce_transitions_are_hard [where d = D1 and w = "inbox_world [NDR1]" and now = 1060000
            and http_method = "''POST''"]
          C10_bounce_transitions_are_hard [where d = "D1\<lparr>contacts_tbl := [K1_engaged]\<rparr>"
            and w = "inbox_world [NDR1]" and now = 1060000 and sreq = sync_all]
          a b c
    by (auto simp: tbl list_all2_Cons1)
qed

subsection \<open>Bounced is sticky\<close>

lemma distinct_ids_eq:
  assumes "distinct (map eh_id t)" "x \<in> set t" "y \<in> set t" "eh_id x = eh_id y"
  shows "x = y"
  using assms by (meson distinct_map inj_onD)

lemma list_all2_right_member:
  assumes "list_all2 Q xs ys" and "y \<in> set ys"
  shows "\<exists>x \<in> set xs. Q x y"
  using assms by (induction xs ys rule: list_all2_induct) auto

lemma sticky_live_ids:
  assumes "list_all2 (\<lambda>x y. eh_id y = eh_id x \<and> (status x = ''bounced'' \<longrightarrow> y = x)) t0 t"
  shows "live_ids t \<subseteq> live_ids t0"
proof
  fix X assume "X \<in> live_ids t"
  then obtain y where y: "y \<in> set t" "eh_id y = X" "status y \<noteq> ''bounced''"
    by (auto simp: live_ids_def)
  from assms y(1) obtain x where x: "x \<in> set t0" "eh_id y = eh_id x" "status x = ''bounced'' \<longrightarrow> y = x"
    using list_all2_right_member [OF assms y(1)] by blast
  then have "status x \<noteq> ''bounced''" using y(3) by auto
  then show "X \<in> live_ids t0" using x y(2) by (auto simp: live_ids_def)
qed

lemma sticky_step:
  assumes d: "distinct (map eh_id t0)"
    and r: "list_all2 (\<lambda>x y. eh_id y = eh_id x \<and> (status x = ''bounced'' \<longrightarrow> y = x)) t0 t"
    and X: "X \<in> live_ids t0"
    and f: "\<And>y. eh_id (f y) = eh_id y"
  shows "list_all2 (\<lambda>x y. eh_id y = eh_id x \<and> (status x = ''bounced'' \<longrightarrow> y = x)) t0
           (update_where (\<lambda>r. eh_id r = X) f t)"
  using r
proof (rule list_all2_update_where)
  fix x y
  assume x: "x \<in> set t0" and xy: "eh_id y = eh_id x \<and> (status x = ''bounced'' \<longrightarrow> y = x)"
    and y: "eh_id y = X"
  from X obtain x0 where x0: "x0 \<in> set t0" "eh_id x0 = X" "status x0 \<noteq> ''bounced''"
    by (auto simp: live_ids_def)
  have "x = x0" using distinct_ids_eq [OF d x x0(1)] xy y x0(2) by simp
  then show "eh_id (f y) = eh_id x \<and> (status x = ''bounced'' \<longrightarrow> f y = x)"
    using x0(3) xy f by simp
qed

lemma handler_sticky:
  "list_all2 (\<lambda>x y. truthy (bounce_type x) \<and> is_valid_open x = Some False \<longrightarrow> y = x)
     (email_history_tbl d) (email_history_tbl (fst (handler d now req flt)))"
proof -
  let ?Q = "\<lambda>x y. truthy (bounce_type x) \<and> is_valid_open x = Some False \<longrightarrow> y = x"
  let ?i = "the (query_id req)"
  have r: "list_all2 ?Q (email_history_tbl d) (email_history_tbl d)"
    by (simp add: list_all2_same)
  have a: "list_all2 ?Q (email_history_tbl d)
             (update_where P (\<lambda>r. r\<lparr>is_valid_open := Some False\<rparr>) (email_history_tbl d))" for P
    using r by (rule list_all2_update_where) auto
  have b: "list_all2 ?Q (email_history_tbl d)
             (update_where (\<lambda>r. eh_id r = ?i) (open_update e now ip) (email_history_tbl d))"
    if e: "single_row (\<lambda>r. eh_id r = ?i) (email_history_tbl d) = Some e" and nb: "\<not> truthy (bounce_type e)"
    for e ip
    using r
  proof (rule list_all2_update_where)
    fix x y
    assume x: "x \<in> set (email_history_tbl d)" and xy: "?Q x y" and y: "eh_id y = ?i"
    show "?Q x (open_update e now ip y)"
    proof (cases "truthy (bounce_type x) \<and> is_valid_open x = Some False")
      case True
      then have "y = x" using xy by simp
      then have "x = e" using single_row_unique [OF e x] y by simp
      then show ?thesis using True nb by simp
    next
      case False
      then show ?thesis by blast
    qed
  qed
  show ?thesis
    unfolding handler_email_table using r a b by (simp split: option.splits)
qed

lemma handler_noop_on_bounced:
  assumes id: "query_id req = Some i"
    and row: "single_row (\<lambda>x. eh_id x = i) (email_history_tbl d) = Some r"
    and b: "truthy (bounce_type r)" "is_valid_open r = Some False"
  shows "fst (handler d now req flt) = d"
proof -
  have same: "update_where (\<lambda>r. eh_id r = i) (\<lambda>r. r\<lparr>is_valid_open := Some False\<rparr>) (email_history_tbl d)
                = email_history_tbl d"
  proof (rule update_where_same)
    fix x assume "x \<in> set (email_history_tbl d)" "eh_id x = i"
    then have "x = r" using single_row_unique [OF row] by simp
    then show "x\<lparr>is_valid_open := Some False\<rparr> = x" using b(2) by simp
  qed
  show ?thesis
    unfolding handler_def handler_try_def
    using id row b(1) same by (simp add: Let_def truthy_def split: option.splits)
qed

text \<open>
  C2. With unique ids: a row every bounce transition has written (\<open>bounced_record\<close>: status
  bounced, \<open>bounce_type\<close> set, \<open>is_valid_open\<close> false) is left as it is by every run of the
  open tracking handler, and a request for the pixel of such a record leaves the whole
  store as it is (no counter, no contact credit, no notification). The query of
  process-email-replies and the query of the general sweep return no row whose status is
  bounced, the pending pass sets aside every check whose record is bounced, and every row
  whose status is bounced is left as it is by process-email-replies, the pending pass, the
  general sweep, process-bounce-checks and sync-email-bounces.
\<close>

theorem C2_bounced_is_sticky:
  assumes ids: "distinct (map eh_id (email_history_tbl d))"
  shows "bounced_record (mark_bounced rsn at r0)
       \<and> list_all2 (\<lambda>x y. bounced_record x \<longrightarrow> y = x) (email_history_tbl d)
           (email_history_tbl (fst (handler d now req flt)))
       \<and> (\<forall>i r. query_id req = Some i \<and> single_row (\<lambda>x. eh_id x = i) (email_history_tbl d) = Some r
                  \<and> bounced_record r \<longrightarrow> fst (handler d now req flt) = d)
       \<and> (\<forall>e \<in> set (sentEmails_query d since). status e \<noteq> ''bounced'')
       \<and> list_all2 (\<lambda>x y. status x = ''bounced'' \<longrightarrow> y = x) (email_history_tbl d)
           (email_history_tbl (fst (process_email_replies w now http_method d)))
       \<and> (\<forall>jc \<in> set (pendingChecks_query d now).
             (\<exists>e. snd jc = Some e \<and> status e = ''bounced'') \<longrightarrow> already_done jc)
       \<and> (\<forall>e \<in> set (recentEmails_query d since). status e \<noteq> ''bounced'')
       \<and> list_all2 (\<lambda>x y. status x = ''bounced'' \<longrightarrow> y = x) (email_history_tbl d)
           (email_history_tbl (pp_db (pending_pass_run w now d)))
       \<and> list_all2 (\<lambda>x y. status x = ''bounced'' \<longrightarrow> y = x) (email_history_tbl d)
           (email_history_tbl (fst (general_sweep w now senders d)))
       \<and> list_all2 (\<lambda>x y. status x = ''bounced'' \<longrightarrow> y = x) (email_history_tbl d)
           (email_history_tbl (fst (process_bounce_checks w now http_method d)))
       \<and> list_all2 (\<lambda>x y. status x = ''bounced'' \<longrightarrow> y = x) (email_history_tbl d)
           (email_history_tbl (fst (sync_email_bounces w now sreq d)))"
proof -
  let ?R = "\<lambda>x y. eh_id y = eh_id x \<and> (status x = ''bounced'' \<longrightarrow> y = x)"
  let ?G = "\<lambda>t. list_all2 ?R (email_history_tbl d) t"
  have weaken: "list_all2 (\<lambda>x y. status x = ''bounced'' \<longrightarrow> y = x) (email_history_tbl d) t" if "?G t" for t
    using that by (rule list_all2_mono) simp
  have init: "?G (email_history_tbl d)" by (simp add: list_all2_same)
  have mark: "?G (update_where (\<lambda>r. eh_id r = X) (mark_bounced rsn at) t)"
    if "?G t0" "X \<in> live_ids t0" "?G t" for X rsn at t t0
  proof -
    have "X \<in> live_ids (email_history_tbl d)"
      using sticky_live_ids [OF that(1)] that(2) by blast
    then show ?thesis
      using sticky_step [OF ids that(3)] by (simp add: mark_bounced_fields)
  qed
  have ndr: "?G (update_where (\<lambda>r. eh_id r = X) (ndr_mark n now) t)"
    if "X \<in> live_ids (email_history_tbl d)" "?G t" for X n t
    unfolding ndr_mark_def using init that by (rule mark)
  have reply: "?G (update_where (\<lambda>r. eh_id r = eh_id e) (reply_update e rc) t)"
    if "e \<in> set (email_history_tbl d)" "status e \<noteq> ''bounced''" "?G t" for e rc t
  proof -
    have "eh_id e \<in> live_ids (email_history_tbl d)"
      using that(1,2) by (auto simp: live_ids_def)
    then show ?thesis
      using sticky_step [OF ids that(3)] by (simp add: reply_update_fields)
  qed
  have 0: "bounced_record (mark_bounced rsn at r0)"
    by (rule mark_bounced_bounced_record)
  have 1: "list_all2 (\<lambda>x y. bounced_record x \<longrightarrow> y = x) (email_history_tbl d)
             (email_history_tbl (fst (handler d now req flt)))"
    using handler_sticky [of d now req flt] by (rule list_all2_mono) (simp add: bounced_record_def)
  have 2: "\<forall>i r. query_id req = Some i \<and> single_row (\<lambda>x. eh_id x = i) (email_history_tbl d) = Some r
                  \<and> bounced_record r \<longrightarrow> fst (handler d now req flt) = d"
    using handler_noop_on_bounced [of req _ d _ now flt] by (auto simp: bounced_record_def)
  have 3: "\<forall>e \<in> set (sentEmails_query d since). status e \<noteq> ''bounced''"
    using sentEmails_live by blast
  have 4: "?G (email_history_tbl (fst (process_email_replies w now http_method d)))"
    by (rule process_email_replies_emails_induct [where G = ?G, OF init]) (rule reply)
  have 5: "\<forall>jc \<in> set (pendingChecks_query d now).
             (\<exists>e. snd jc = Some e \<and> status e = ''bounced'') \<longrightarrow> already_done jc"
    by (auto simp: already_done_def)
  have 6: "\<forall>e \<in> set (recentEmails_query d since). status e \<noteq> ''bounced''"
    by (auto simp: recentEmails_query_def dest!: in_set_takeD)
  have 7: "?G (email_history_tbl (pp_db (pending_pass_run w now d)))"
    by (rule pending_pass_emails_induct [where G = ?G, OF init]) (rule ndr)
  have 8: "?G (email_history_tbl (fst (general_sweep w now senders d)))"
    by (rule general_sweep_emails_induct [where G = ?G, OF init]) (rule ndr)
  have 9: "?G (email_history_tbl (fst (process_bounce_checks w now http_method d)))"
    by (rule process_bounce_checks_emails_induct [where G = ?G, OF init]) (rule mark)
  have 10: "?G (email_history_tbl (fst (sync_email_bounces w now sreq d)))"
    by (rule sync_emails_induct [where G = ?G, OF init]) (rule mark)
  show ?thesis
    using 0 1 2 3 5 6 weaken [OF 4] weaken [OF 7] weaken [OF 8] weaken [OF 9] weaken [OF 10]
    by blast
qed

lemma E1_bounced_facts:
  "status E1_bounced = ''bounced''" "bounced_record E1_bounced" "eh_id E1_bounced = ''E1''"
  by (simp_all add: E1_bounced_def mark_bounced_fields mark_bounced_bounced_record E1_opened_def E1_def)

theorem C2_bounced_is_sticky_witness:
  "fst (handler D2 1500000 (browser_request ''1.1.1.1'') no_faults) = D2
   \<and> fst (handler D2 1500000 googlebot_request no_faults) = D2
   \<and> email_history_tbl (fst (process_email_replies (inbox_world [reply_message ''G1'' 2000000]) 2100000 ''POST'' D2))
       = [E1_bounced]
   \<and> email_history_tbl (fst (process_bounce_checks (inbox_world [NDR1]) 1060000 ''POST'' D2)) = [E1_bounced]
   \<and> email_history_tbl (fst (sync_email_bounces (inbox_world [NDR1]) 1060000 sync_all D2)) = [E1_bounced]"
proof -
  have ids: "distinct (map eh_id (email_history_tbl D2))"
    by (simp add: D2_def)
  have row: "single_row (\<lambda>x. eh_id x = ''E1'') (email_history_tbl D2) = Some E1_bounced"
    by (simp add: D2_def single_row_def E1_bounced_facts)
  have q: "query_id (browser_request ''1.1.1.1'') = Some ''E1''" "query_id googlebot_request = Some ''E1''"
    by (simp_all add: browser_request_def googlebot_request_def)
  have tbl: "email_history_tbl D2 = [E1_bounced]" by (simp add: D2_def)
  show ?thesis
    using C2_bounced_is_sticky [OF ids, where req = "browser_request ''1.1.1.1''" and now = 1500000
            and flt = no_faults]
          C2_bounced_is_sticky [OF ids, where req = googlebot_request and now = 1500000
            and flt = no_faults]
          C2_bounced_is_sticky [OF ids, where now = 2100000 and http_method = "''POST''"
            and w = "inbox_world [reply_message ''G1'' 2000000]"]
          C2_bounced_is_sticky [OF ids, where now = 1060000 and http_method = "''POST''"
            and w = "inbox_world [NDR1]" and sreq = sync_all]
          row q E1_bounced_facts
    by (simp add: tbl list_all2_Cons1)
qed

subsection \<open>Bounce reconciliation and the contact\<close>

lemma process_pending_check_contacts:
  "contacts_tbl (pp_db (process_pending_check w now ndrs st jc)) = contacts_tbl (pp_db st)"
  by (simp add: process_pending_check_def Let_def split: option.splits)

lemma pending_pass_contacts:
  "contacts_tbl (pp_db (pending_pass_run w now d)) = contacts_tbl d"
proof -
  let ?I = "\<lambda>st :: pending_pass. contacts_tbl (pp_db st) = contacts_tbl d"
  have sender: "?I (process_pending_sender w now st entry)" if "?I st" for st entry
  proof -
    have "?I (foldl (process_pending_check w now ndrs) st1 cs)" if "?I st1" for st1 ndrs cs
      by (rule foldl_invariant [where P = ?I, OF that]) (simp add: process_pending_check_contacts)
    then show ?thesis using that by (simp add: process_pending_sender_def Let_def)
  qed
  show ?thesis
    unfolding pending_pass_run_def Let_def
    by (rule foldl_invariant [where P = ?I]) (use sender in simp_all)
qed

lemma general_sweep_contacts:
  "contacts_tbl (fst (general_sweep w now senders d)) = contacts_tbl d"
proof -
  let ?I = "\<lambda>st :: db \<times> nat. contacts_tbl (fst st) = contacts_tbl d"
  have email: "?I (sweep_email w now ndrs st e)" if "?I st" for ndrs st e
    using that by (simp add: sweep_email_def split: option.splits)
  have sender: "?I (sweep_sender w now senders st entry)" if "?I st" for st entry
  proof -
    have "?I (foldl (sweep_email w now ndrs) st es)" for ndrs es
      by (rule foldl_invariant [where P = ?I, OF that]) (rule email)
    then show ?thesis using that by (simp add: sweep_sender_def)
  qed
  show ?thesis
    unfolding general_sweep_def
    by (rule foldl_invariant [where P = ?I]) (use sender in simp_all)
qed

lemma process_bounce_checks_contacts:
  "contacts_tbl (fst (process_bounce_checks w now method d)) = contacts_tbl d"
  by (simp add: process_bounce_checks_def Let_def general_sweep_contacts pending_pass_contacts
           split: sum.splits js_error.splits)

text \<open>
  C7 at its failing input. The first open of \<open>E1\<close> credits the linked contact (opens 0 to
  1, score 0 to 5). The pending pass then matches a non-delivery report and bounces \<open>E1\<close>,
  resetting the row's counters, and the contact keeps the credit: process-bounce-checks
  never writes a contact (\<open>process_bounce_checks_contacts\<close>).
\<close>

theorem C7_contact_not_corrected_failing_input:
  "fst (handler D0 1010000 (browser_request ''1.1.1.1'') no_faults)
     = \<lparr>email_history_tbl = [E1_opened],
         contacts_tbl = [\<lparr>c_id = ''K1'', email_opens = Some 1, engagement_score = Some 5\<rparr>],
         notifications_tbl =
           [\<lparr>user_id = ''U1'', message = ''Jane opened your email: '' @ [CHR 0x22] @ ''Hello'' @ [CHR 0x22],
              notification_type = ''email_opened'', n_status = ''unread'', n_lead_id = None\<rparr>],
         pending_tbl = [], replies_tbl = []\<rparr>
   \<and> contacts_tbl D0 = [\<lparr>c_id = ''K1'', email_opens = Some 0, engagement_score = Some 0\<rparr>]
   \<and> email_history_tbl D1 = [E1_opened]
   \<and> contacts_tbl D1 = [\<lparr>c_id = ''K1'', email_opens = Some 1, engagement_score = Some 5\<rparr>]
   \<and> map (\<lambda>r. (status r, bounce_type r, open_count r))
       (email_history_tbl (fst (process_bounce_checks (inbox_world [NDR1]) 1060000 ''POST'' D1)))
       = [(''bounced'', Some ''hard'', Some 0)]
   \<and> contacts_tbl (fst (process_bounce_checks (inbox_world [NDR1]) 1060000 ''POST'' D1))
       = [\<lparr>c_id = ''K1'', email_opens = Some 1, engagement_score = Some 5\<rparr>]"
proof -
  have 1: "fst (handler D0 1010000 (browser_request ''1.1.1.1'') no_faults)
     = \<lparr>email_history_tbl = [E1_opened],
         contacts_tbl = [\<lparr>c_id = ''K1'', email_opens = Some 1, engagement_score = Some 5\<rparr>],
         notifications_tbl =
           [\<lparr>user_id = ''U1'', message = ''Jane opened your email: '' @ [CHR 0x22] @ ''Hello'' @ [CHR 0x22],
              notification_type = ''email_opened'', n_status = ''unread'', n_lead_id = None\<rparr>],
         pending_tbl = [], replies_tbl = []\<rparr>"
    unfolding first_open_run by (simp add: K1_credited_def)
  have 2: "contacts_tbl D0 = [\<lparr>c_id = ''K1'', email_opens = Some 0, engagement_score = Some 0\<rparr>]"
    by (simp add: D0_def K1_def)
  have 3: "email_history_tbl D1 = [E1_opened]"
    by (simp add: D1_def)
  have 4: "contacts_tbl D1 = [\<lparr>c_id = ''K1'', email_opens = Some 1, engagement_score = Some 5\<rparr>]"
    by (simp add: D1_def K1_credited_def)
  have 5: "map (\<lambda>r. (status r, bounce_type r, open_count r))
       (email_history_tbl (fst (process_bounce_checks (inbox_world [NDR1]) 1060000 ''POST'' D1)))
       = [(''bounced'', Some ''hard'', Some 0)]"
    unfolding bounce_run by (simp add: D2_def E1_bounced_def mark_bounced_fields)
  have 6: "contacts_tbl (fst (process_bounce_checks (inbox_world [NDR1]) 1060000 ''POST'' D1))
       = [\<lparr>c_id = ''K1'', email_opens = Some 1, engagement_score = Some 5\<rparr>]"
    unfolding bounce_run by (simp add: D2_def K1_credited_def)
  show ?thesis
    by (intro conjI 1 2 3 4 5 6)
qed

text \<open>
  sync-email-bounces does correct the contact, by one open and ten points of score where
  the open had credited five: a contact at 3 opens and 25 points after the credit (2 and 20
  before it) ends at 2 and 15. A second run of either service finds the row bounced and
  writes nothing more: no second notification, no second decrement.
\<close>

lemma sync_overcorrects_example:
  "contacts_tbl (fst (sync_email_bounces (inbox_world [NDR1]) 1060000 sync_all
                          (D1\<lparr>contacts_tbl := [K1_engaged]\<rparr>)))
     = [\<lparr>c_id = ''K1'', email_opens = Some 2, engagement_score = Some 15\<rparr>]"
  unfolding sync_run by simp

lemma bounce_twice_example:
  "fst (process_bounce_checks (inbox_world [NDR1]) 1360000 ''POST''
      (fst (process_bounce_checks (inbox_world [NDR1]) 1060000 ''POST'' D1)))
     = fst (process_bounce_checks (inbox_world [NDR1]) 1060000 ''POST'' D1)
   \<and> length (notifications_tbl (fst (process_bounce_checks (inbox_world [NDR1]) 1060000 ''POST'' D1))) = 1
   \<and> fst (sync_email_bounces (inbox_world [NDR1]) 1360000 sync_all
        (fst (sync_email_bounces (inbox_world [NDR1]) 1060000 sync_all (D1\<lparr>contacts_tbl := [K1_engaged]\<rparr>))))
     = fst (sync_email_bounces (inbox_world [NDR1]) 1060000 sync_all (D1\<lparr>contacts_tbl := [K1_engaged]\<rparr>))"
  unfolding bounce_run sync_run fst_conv bounce_run_again sync_run_again
  by (simp add: D2_def)

subsection \<open>Reply recording\<close>

text \<open>
  The part of C6 that holds: a reply is inserted only when no row has its record and
  provider message id, so a store that holds each such pair at most once still does after a
  run, however often the provider returns the message.
\<close>

lemma single_row_None_distinct:
  assumes "distinct (map key xs)" and "single_row (\<lambda>r. key r = k) xs = None"
  shows "k \<notin> set (map key xs)"
proof
  assume "k \<in> set (map key xs)"
  then obtain x where x: "x \<in> set xs" "key x = k" by auto
  have "length (filter (\<lambda>r. key r = k) xs) \<le> 1"
    using assms(1)
  proof (induction xs)
    case Nil
    show ?case by simp
  next
    case (Cons a xs)
    show ?case
    proof (cases "key a = k")
      case True
      then have "k \<notin> key ` set xs" using Cons.prems by simp
      then have "\<forall>r \<in> set xs. key r \<noteq> k" by blast
      then have "filter (\<lambda>r. key r = k) xs = []" by (simp add: filter_empty_conv)
      then show ?thesis using True by simp
    next
      case False
      then show ?thesis using Cons by simp
    qed
  qed
  moreover have "x \<in> set (filter (\<lambda>r. key r = k) xs)" using x by simp
  ultimately obtain y where "filter (\<lambda>r. key r = k) xs = [y]"
    by (cases "filter (\<lambda>r. key r = k) xs") auto
  then show False using assms(2) by (simp add: single_row_def)
qed

lemma process_reply_replies:
  "replies_tbl (fst (process_reply w idmap st reply)) = replies_tbl (fst st)
   \<or> (\<exists>row. single_row (\<lambda>r. er_email_history_id r = er_email_history_id row
                              \<and> graph_message_id r = graph_message_id row) (replies_tbl (fst st)) = None
            \<and> replies_tbl (fst (process_reply w idmap st reply)) = replies_tbl (fst st) @ [row])"
  by (simp add: process_reply_def Let_def split: option.splits)

lemma process_reply_dedup:
  assumes "distinct (map (\<lambda>r. (er_email_history_id r, graph_message_id r)) (replies_tbl (fst st)))"
  shows "distinct (map (\<lambda>r. (er_email_history_id r, graph_message_id r))
           (replies_tbl (fst (process_reply w idmap st reply))))"
proof -
  let ?key = "\<lambda>r. (er_email_history_id r, graph_message_id r)"
  from process_reply_replies [of w idmap st reply] show ?thesis
  proof
    assume "replies_tbl (fst (process_reply w idmap st reply)) = replies_tbl (fst st)"
    then show ?thesis using assms by simp
  next
    assume "\<exists>row. single_row (\<lambda>r. er_email_history_id r = er_email_history_id row
                              \<and> graph_message_id r = graph_message_id row) (replies_tbl (fst st)) = None
            \<and> replies_tbl (fst (process_reply w idmap st reply)) = replies_tbl (fst st) @ [row]"
    then obtain row where
        none: "single_row (\<lambda>r. er_email_history_id r = er_email_history_id row
                 \<and> graph_message_id r = graph_message_id row) (replies_tbl (fst st)) = None"
      and tbl: "replies_tbl (fst (process_reply w idmap st reply)) = replies_tbl (fst st) @ [row]"
      by blast
    have "single_row (\<lambda>r. ?key r = ?key row) (replies_tbl (fst st)) = None"
      using none by simp
    then have "?key row \<notin> set (map ?key (replies_tbl (fst st)))"
      by (rule single_row_None_distinct [OF assms])
    then show ?thesis using assms tbl by simp
  qed
qed

lemma process_email_replies_dedup:
  assumes "distinct (map (\<lambda>r. (er_email_history_id r, graph_message_id r)) (replies_tbl d))"
  shows "distinct (map (\<lambda>r. (er_email_history_id r, graph_message_id r))
           (replies_tbl (fst (process_email_replies w now method d))))"
proof -
  let ?I = "\<lambda>st :: db \<times> nat \<times> string list.
              distinct (map (\<lambda>r. (er_email_history_id r, graph_message_id r)) (replies_tbl (fst st)))"
  have sender: "?I (process_reply_sender w st entry)" if "?I st" for st entry
    unfolding process_reply_sender_def
    by (rule foldl_invariant [where P = ?I, OF that]) (rule process_reply_dedup)
  have all: "?I (foldl (process_reply_sender w) (d, 0, []) senders)" for senders
    by (rule foldl_invariant [where P = ?I]) (use assms sender in simp_all)
  show ?thesis
    using assms all
    by (simp add: process_email_replies_def Let_def split: sum.splits js_error.splits)
qed

text \<open>
  C6 at its failing input. One run finds two new replies (provider ids G1 and G2) to
  \<open>E1\<close>. Both are recorded, and \<open>reply_count\<close> ends at 1, not 2, with \<open>replied_at\<close> and
  \<open>last_reply_at\<close> those of the reply processed second: the update of each reply is built
  from the row as the query at the start of the run returned it.
\<close>

theorem C6_reply_count_failing_input:
  "map (\<lambda>r. (er_email_history_id r, graph_message_id r, received_at r))
     (replies_tbl (fst (process_email_replies
        (inbox_world [reply_message ''G1'' 2000000, reply_message ''G2'' 1900000]) 2100000 ''POST'' D0)))
     = [(''E1'', ''G1'', 2000000), (''E1'', ''G2'', 1900000)]
   \<and> map (\<lambda>r. (reply_count r, replied_at r, last_reply_at r, status r))
     (email_history_tbl (fst (process_email_replies
        (inbox_world [reply_message ''G1'' 2000000, reply_message ''G2'' 1900000]) 2100000 ''POST'' D0)))
     = [(Some 1, Some 1900000, Some 1900000, ''replied'')]"
  by code_simp

text \<open>One reply, met again by a second run: one row, counted once.\<close>

lemma reply_twice_example:
  "replies_tbl (fst (process_email_replies (inbox_world [reply_message ''G1'' 2000000]) 2200000 ''POST''
      (fst (process_email_replies (inbox_world [reply_message ''G1'' 2000000]) 2100000 ''POST'' D0))))
     = replies_tbl (fst (process_email_replies (inbox_world [reply_message ''G1'' 2000000]) 2100000 ''POST'' D0))
   \<and> map graph_message_id
       (replies_tbl (fst (process_email_replies (inbox_world [reply_message ''G1'' 2000000]) 2100000 ''POST'' D0)))
     = [''G1'']
   \<and> map (\<lambda>r. (reply_count r, replied_at r, last_reply_at r, status r))
       (email_history_tbl (fst (process_email_replies (inbox_world [reply_message ''G1'' 2000000]) 2100000 ''POST'' D0)))
     = [(Some 1, Some 2000000, Some 2000000, ''replied'')]"
  by code_simp

end
